theory Spec2Isabelle
  imports Complex_Main "HOL-Library.AList" "HOL-Library.Sublist"
begin

section \<open>JavaScript values and string helpers\<close>

text \<open>
  Strings are \<^typ>\<open>string\<close> (lists of \<^typ>\<open>char\<close>, read as code units below 256).
  The helpers are the \<^verbatim>\<open>String.prototype\<close> methods the sources call, at the
  arguments they are called with.  A JavaScript string is truthy when it is not empty,
  a number when it is not zero, an optional value when it is present and truthy.
\<close>

definition startsWith :: "string \<Rightarrow> string \<Rightarrow> bool" where
  \<comment> \<open>\<^verbatim>\<open>s.startsWith(p)\<close>\<close>
  "startsWith s p = (take (length p) s = p)"

definition slice_from :: "nat \<Rightarrow> string \<Rightarrow> string" where
  \<comment> \<open>\<^verbatim>\<open>s.slice(n)\<close> for a non-negative \<open>n\<close>\<close>
  "slice_from n s = drop n s"

fun split_on :: "char \<Rightarrow> string \<Rightarrow> string list" where
  \<comment> \<open>\<^verbatim>\<open>s.split(c)\<close> for a one-character separator: never the empty list\<close>
  "split_on c [] = [[]]"
| "split_on c (x # xs) =
     (if x = c then [] # split_on c xs
      else (case split_on c xs of [] \<Rightarrow> [[x]] | y # ys \<Rightarrow> (x # y) # ys))"

fun join_with :: "string \<Rightarrow> string list \<Rightarrow> string" where
  \<comment> \<open>\<^verbatim>\<open>parts.join(sep)\<close>\<close>
  "join_with sep [] = []"
| "join_with sep [x] = x"
| "join_with sep (x # y # zs) = x @ sep @ join_with sep (y # zs)"

definition is_space :: "char \<Rightarrow> bool" where
  \<comment> \<open>the white space and line terminators of \<^verbatim>\<open>trim()\<close> among the code units below 256\<close>
  "is_space c = (c \<in> set [CHR 0x09, CHR 0x0A, CHR 0x0B, CHR 0x0C, CHR 0x0D, CHR 0x20, CHR 0xA0])"

definition trim :: "string \<Rightarrow> string" where
  \<comment> \<open>\<^verbatim>\<open>s.trim()\<close>\<close>
  "trim s = rev (dropWhile is_space (rev (dropWhile is_space s)))"

definition digit_of :: "nat \<Rightarrow> char" where
  "digit_of d = ''0123456789'' ! (d mod 10)"

function show_nat :: "nat \<Rightarrow> string" where
  \<comment> \<open>the decimal text a template literal gives a non-negative integer\<close>
  "show_nat n = (if n < 10 then [digit_of n] else show_nat (n div 10) @ [digit_of n])"
  by pat_completeness auto
termination
  by (relation "measure (\<lambda>n. n)") auto

declare show_nat.simps [simp del]

definition show_opt_nat :: "nat option \<Rightarrow> string \<Rightarrow> string" where
  \<comment> \<open>\<^verbatim>\<open>`${v}`\<close> for a number that may be \<^verbatim>\<open>null\<close> or \<^verbatim>\<open>undefined\<close>
     (the second argument is the word printed then)\<close>
  "show_opt_nat v absent = (case v of None \<Rightarrow> absent | Some n \<Rightarrow> show_nat n)"

definition truthy_str :: "string option \<Rightarrow> bool" where
  \<comment> \<open>truthiness of an optional string\<close>
  "truthy_str v = (case v of None \<Rightarrow> False | Some s \<Rightarrow> s \<noteq> [])"

definition truthy_num :: "nat option \<Rightarrow> bool" where
  \<comment> \<open>truthiness of an optional number that is a non-negative integer\<close>
  "truthy_num v = (case v of None \<Rightarrow> False | Some n \<Rightarrow> n \<noteq> 0)"

definition truthy_real :: "real option \<Rightarrow> bool" where
  \<comment> \<open>truthiness of an optional number\<close>
  "truthy_real v = (case v of None \<Rightarrow> False | Some r \<Rightarrow> r \<noteq> 0)"

datatype error =
    Error string            \<comment> \<open>\<^verbatim>\<open>new Error(message)\<close>\<close>
  | TypeError string
  | SyntaxError string      \<comment> \<open>thrown by \<^verbatim>\<open>JSON.parse\<close>\<close>
  | SystemError string string \<comment> \<open>a failed system call: its code and the path\<close>

text \<open>
  What awaiting an asynchronous call gives: the value its promise is fulfilled with, the
  error it is rejected with, or nothing at all, when an exception escapes a callback and
  the promise is never settled (\<open>Hangs\<close> carries that uncaught exception).
\<close>

datatype 'a outcome = Returns 'a | Raises error | Hangs error

section \<open>Node's path module (POSIX flavour)\<close>

text \<open>
  \<^verbatim>\<open>path.join\<close>, \<^verbatim>\<open>path.normalize\<close>, \<^verbatim>\<open>path.resolve\<close> and \<^verbatim>\<open>path.dirname\<close> as
  \<^verbatim>\<open>path.posix\<close> computes them.  Node's \<^verbatim>\<open>normalizeString\<close> scans characters; the
  same result is obtained segment by segment: an empty segment or \<^verbatim>\<open>.\<close> is dropped,
  \<^verbatim>\<open>..\<close> removes the previous segment unless there is none or it is \<^verbatim>\<open>..\<close> itself,
  in which case it is kept only when the path may climb above its root.
  The stack of \<open>normalize_step\<close> holds the segments kept so far, last one first.
\<close>

definition normalize_step :: "bool \<Rightarrow> string \<Rightarrow> string list \<Rightarrow> string list" where
  "normalize_step allowAboveRoot seg stack =
     (if seg = [] \<or> seg = ''.'' then stack
      else if seg = ''..'' then
        (case stack of
           [] \<Rightarrow> if allowAboveRoot then [''..''] else []
         | t # ts \<Rightarrow>
             if t = ''..'' then (if allowAboveRoot then ''..'' # stack else stack)
             else ts)
      else seg # stack)"

definition normalize_segments :: "bool \<Rightarrow> string \<Rightarrow> string list" where
  "normalize_segments allowAboveRoot p =
     rev (fold (normalize_step allowAboveRoot) (split_on CHR ''/'' p) [])"

definition normalizeString :: "bool \<Rightarrow> string \<Rightarrow> string" where
  "normalizeString allowAboveRoot p = join_with ''/'' (normalize_segments allowAboveRoot p)"

definition isAbsolute :: "string \<Rightarrow> bool" where
  "isAbsolute p = (p \<noteq> [] \<and> hd p = CHR ''/'')"

definition path_normalize :: "string \<Rightarrow> string" where
  "path_normalize p =
     (if p = [] then ''.''
      else
        let trailingSeparator = (last p = CHR ''/'');
            r = normalizeString (\<not> isAbsolute p) p
        in if r = [] then (if isAbsolute p then ''/'' else if trailingSeparator then ''./'' else ''.'')
           else (if isAbsolute p then ''/'' else []) @ r @ (if trailingSeparator then ''/'' else []))"

definition path_join :: "string list \<Rightarrow> string" where
  \<comment> \<open>\<^verbatim>\<open>path.join(...args)\<close>\<close>
  "path_join args =
     (let parts = filter (\<lambda>a. a \<noteq> []) args
      in if parts = [] then ''.'' else path_normalize (join_with ''/'' parts))"

definition path_resolve :: "string \<Rightarrow> string \<Rightarrow> string" where
  \<comment> \<open>\<^verbatim>\<open>path.resolve(p)\<close> in a process whose working directory is \<open>cwd\<close>\<close>
  "path_resolve cwd p =
     (let r1 = (if p = [] then [] else p @ ''/'');
          r2 = (if isAbsolute p \<or> cwd = [] then r1 else cwd @ ''/'' @ r1);
          resolvedAbsolute = (isAbsolute p \<or> isAbsolute cwd);
          r = normalizeString (\<not> resolvedAbsolute) r2
      in if resolvedAbsolute then ''/'' @ r
         else if r \<noteq> [] then r else ''.'')"

definition path_dirname :: "string \<Rightarrow> string" where
  \<comment> \<open>\<^verbatim>\<open>path.dirname(p)\<close>: trailing separators are skipped, then the last segment is cut
     at the separator before it (the first character is never that separator)\<close>
  "path_dirname p =
     (if p = [] then ''.''
      else
        let hasRoot = (hd p = CHR ''/'');
            r = dropWhile (\<lambda>c. c \<noteq> CHR ''/'') (dropWhile (\<lambda>c. c = CHR ''/'') (rev (tl p)))
        in if r = [] then (if hasRoot then ''/'' else ''.'')
           else if hasRoot \<and> tl r = [] then ''//''
           else hd p # rev (tl r))"

section \<open>secrets.ts\<close>

text \<open>
  The optional \<^verbatim>\<open>keytar\<close> module is a keychain mapping (service, account) to a
  password; \<^verbatim>\<open>loadKeytar()\<close> yields \<open>None\<close> when the module cannot be required.
  \<^verbatim>\<open>randomUUID()\<close> is supplied by the caller of the model.
\<close>

type_synonym keychain = "(string \<times> string) \<Rightarrow> string option"

definition SERVICE_NAME :: string where
  "SERVICE_NAME = ''database-cli-dumper''"

datatype SecretStorage = Keytar | Plaintext

record SaveSecretResult =
  ref :: string
  storage :: SecretStorage
  warning :: "string option"

definition savePassword ::
  "keychain option \<Rightarrow> string \<Rightarrow> string \<Rightarrow> string option \<Rightarrow> SaveSecretResult \<times> keychain option" where
  "savePassword keytar randomUUID password existingRef =
     (let account =
            (case existingRef of
               None \<Rightarrow> randomUUID
             | Some r \<Rightarrow>
                 if r \<noteq> [] \<and> startsWith r ''keytar:'' then split_on CHR '':'' r ! 1
                 else randomUUID)
      in case keytar of
           Some kc \<Rightarrow>
             (\<lparr>ref = ''keytar:'' @ account, storage = Keytar, warning = None\<rparr>,
              Some (kc((SERVICE_NAME, account) \<mapsto> password)))
         | None \<Rightarrow>
             (\<lparr>ref = ''plaintext:'' @ password, storage = Plaintext,
               warning = Some ''keytar unavailable; storing password in plaintext in config''\<rparr>,
              None))"

definition resolvePassword :: "keychain option \<Rightarrow> string \<Rightarrow> string option" where
  \<comment> \<open>\<open>None\<close> stands for both \<^verbatim>\<open>undefined\<close> and keytar's \<^verbatim>\<open>null\<close>\<close>
  "resolvePassword keytar r =
     (if r = [] then None
      else if startsWith r ''plaintext:'' then Some (slice_from (length ''plaintext:'') r)
      else if startsWith r ''keytar:'' then
        (case keytar of
           None \<Rightarrow> None
         | Some kc \<Rightarrow> kc (SERVICE_NAME, slice_from (length ''keytar:'') r))
      else None)"

definition isPlaintextRef :: "string \<Rightarrow> bool" where
  "isPlaintextRef r = startsWith r ''plaintext:''"

section \<open>The file system\<close>

text \<open>
  A file system is a tree: a file has a content and permission bits, a directory lists
  its entries in directory order.  A path names a node by its segments from the root.
  The operating system reads a path string relative to the working directory and
  resolves \<^verbatim>\<open>.\<close> and \<^verbatim>\<open>..\<close> lexically (there are no symbolic links in the model).
\<close>

datatype node = File (file_content: string) (file_mode: nat) | Dir (dir_entries: "(string \<times> node) list")

fun lookup :: "node \<Rightarrow> string list \<Rightarrow> node option" where
  "lookup n [] = Some n"
| "lookup n (s # ss) =
     (case n of
        File _ _ \<Rightarrow> None
      | Dir es \<Rightarrow> (case map_of es s of None \<Rightarrow> None | Some c \<Rightarrow> lookup c ss))"

fun put :: "string list \<Rightarrow> node \<Rightarrow> node \<Rightarrow> node option" where
  \<comment> \<open>place a node at a path whose parent is an existing directory\<close>
  "put [] new n = Some new"
| "put (s # ss) new n =
     (case n of
        File _ _ \<Rightarrow> None
      | Dir es \<Rightarrow>
          if ss = [] then Some (Dir (AList.update s new es))
          else (case map_of es s of
                  None \<Rightarrow> None
                | Some c \<Rightarrow> map_option (\<lambda>c'. Dir (AList.update s c' es)) (put ss new c)))"

fun mkdirp :: "string list \<Rightarrow> node \<Rightarrow> node option" where
  \<comment> \<open>create a directory and its missing ancestors; fails when a file is in the way\<close>
  "mkdirp [] n = (case n of File _ _ \<Rightarrow> None | Dir _ \<Rightarrow> Some n)"
| "mkdirp (s # ss) n =
     (case n of
        File _ _ \<Rightarrow> None
      | Dir es \<Rightarrow>
          map_option (\<lambda>c'. Dir (AList.update s c' es))
            (mkdirp ss (case map_of es s of None \<Rightarrow> Dir [] | Some c \<Rightarrow> c)))"

fun rm :: "string list \<Rightarrow> node \<Rightarrow> node" where
  \<comment> \<open>remove a node with everything below it; nothing happens when it is absent, and
     the root itself stays, emptied\<close>
  "rm [] n = Dir []"
| "rm (s # ss) n =
     (case n of
        File _ _ \<Rightarrow> n
      | Dir es \<Rightarrow>
          if ss = [] then Dir (AList.delete s es)
          else (case map_of es s of
                  None \<Rightarrow> n
                | Some c \<Rightarrow> Dir (AList.update s (rm ss c) es)))"

definition fs_path :: "string \<Rightarrow> string \<Rightarrow> string list" where
  \<comment> \<open>the segments the operating system walks for a path string\<close>
  "fs_path cwd p = normalize_segments False (if isAbsolute p then p else cwd @ ''/'' @ p)"

definition pathExists :: "string \<Rightarrow> node \<Rightarrow> string \<Rightarrow> bool" where
  \<comment> \<open>\<^verbatim>\<open>fs.pathExists(p)\<close>\<close>
  "pathExists cwd fs p = (lookup fs (fs_path cwd p) \<noteq> None)"

definition ensureDir :: "string \<Rightarrow> node \<Rightarrow> string \<Rightarrow> error + node" where
  \<comment> \<open>\<^verbatim>\<open>fs.ensureDir(p)\<close>\<close>
  "ensureDir cwd fs p =
     (case mkdirp (fs_path cwd p) fs of
        None \<Rightarrow>
          (case lookup fs (fs_path cwd p) of
             Some (File _ _) \<Rightarrow> Inl (SystemError ''EEXIST'' p)
           | _ \<Rightarrow> Inl (SystemError ''ENOTDIR'' p))
      | Some fs' \<Rightarrow> Inr fs')"

definition mkdir :: "string \<Rightarrow> node \<Rightarrow> string \<Rightarrow> error + node" where
  \<comment> \<open>create one directory: the path must be new and its parent a directory\<close>
  "mkdir cwd fs p =
     (if lookup fs (fs_path cwd p) \<noteq> None then Inl (SystemError ''EEXIST'' p)
      else case put (fs_path cwd p) (Dir []) fs of
             None \<Rightarrow> Inl (SystemError ''ENOENT'' p)
           | Some fs' \<Rightarrow> Inr fs')"

definition openWrite :: "string \<Rightarrow> node \<Rightarrow> string \<Rightarrow> error + node" where
  \<comment> \<open>open a file for writing (flag \<^verbatim>\<open>w\<close>): it is created (mode 0644, that is 420), or truncated when it exists\<close>
  "openWrite cwd fs p =
     (case lookup fs (fs_path cwd p) of
        Some (Dir _) \<Rightarrow> Inl (SystemError ''EISDIR'' p)
      | Some (File _ m) \<Rightarrow>
          (case put (fs_path cwd p) (File [] m) fs of
             None \<Rightarrow> Inl (SystemError ''ENOENT'' p)
           | Some fs' \<Rightarrow> Inr fs')
      | None \<Rightarrow>
          (case put (fs_path cwd p) (File [] 420) fs of
             None \<Rightarrow> Inl (SystemError ''ENOENT'' p)
           | Some fs' \<Rightarrow> Inr fs'))"

definition appendFile :: "string \<Rightarrow> node \<Rightarrow> string \<Rightarrow> string \<Rightarrow> node" where
  \<comment> \<open>a chunk written through an open stream to the file still linked at the path\<close>
  "appendFile cwd fs p chunk =
     (case lookup fs (fs_path cwd p) of
        Some (File c m) \<Rightarrow>
          (case put (fs_path cwd p) (File (c @ chunk) m) fs of None \<Rightarrow> fs | Some fs' \<Rightarrow> fs')
      | _ \<Rightarrow> fs)"

definition readFile :: "string \<Rightarrow> node \<Rightarrow> string \<Rightarrow> error + string" where
  "readFile cwd fs p =
     (case lookup fs (fs_path cwd p) of
        None \<Rightarrow> Inl (SystemError ''ENOENT'' p)
      | Some (Dir _) \<Rightarrow> Inl (SystemError ''EISDIR'' p)
      | Some (File c _) \<Rightarrow> Inr c)"


definition remove :: "string \<Rightarrow> node \<Rightarrow> string \<Rightarrow> node" where
  \<comment> \<open>\<^verbatim>\<open>fs.remove(p)\<close> when the operating system lets it happen\<close>
  "remove cwd fs p = rm (fs_path cwd p) fs"

definition move_overwrite :: "string \<Rightarrow> node \<Rightarrow> string \<Rightarrow> string \<Rightarrow> error + node" where
  \<comment> \<open>\<^verbatim>\<open>fs.move(src, dest, { overwrite: true })\<close>: the destination's directory is
     created, the destination removed, the source renamed\<close>
  "move_overwrite cwd fs src dest =
     (case lookup fs (fs_path cwd src) of
        None \<Rightarrow> Inl (SystemError ''ENOENT'' src)
      | Some n \<Rightarrow>
          if fs_path cwd src = fs_path cwd dest then
            Inl (Error ''Source and destination must not be the same.'')
          else
            (case mkdirp (butlast (fs_path cwd dest)) fs of
               None \<Rightarrow> Inl (SystemError ''ENOTDIR'' dest)
             | Some fs1 \<Rightarrow>
                 (case put (fs_path cwd dest) n (rm (fs_path cwd src) (rm (fs_path cwd dest) fs1)) of
                    None \<Rightarrow> Inl (SystemError ''ENOENT'' dest)
                  | Some fs2 \<Rightarrow> Inr fs2)))"

definition chmod :: "string \<Rightarrow> node \<Rightarrow> string \<Rightarrow> nat \<Rightarrow> error + node" where
  "chmod cwd fs p m =
     (case lookup fs (fs_path cwd p) of
        None \<Rightarrow> Inl (SystemError ''ENOENT'' p)
      | Some (Dir es) \<Rightarrow> Inr fs
      | Some (File c _) \<Rightarrow>
          (case put (fs_path cwd p) (File c m) fs of
             None \<Rightarrow> Inl (SystemError ''ENOENT'' p)
           | Some fs' \<Rightarrow> Inr fs'))"

section \<open>platform.ts and paths.ts\<close>

text \<open>
  What the process reads from its surroundings: \<^verbatim>\<open>os.platform()\<close>, \<^verbatim>\<open>os.arch()\<close>,
  \<^verbatim>\<open>os.homedir()\<close>, \<^verbatim>\<open>os.tmpdir()\<close>, \<^verbatim>\<open>process.cwd()\<close>, two environment variables,
  the characters \<^verbatim>\<open>mkdtemp\<close> appends to its prefix, the clock as
  \<^verbatim>\<open>new Date().toISOString()\<close> prints it, the milliseconds a dump took, and the paths
  the operating system refuses to delete.
\<close>

record sys =
  os_platform :: string
  os_arch :: string
  os_homedir :: string
  os_tmpdir :: string
  process_cwd :: string
  env_APPDATA :: "string option"
  env_XDG_CONFIG_HOME :: "string option"
  mkdtemp_suffix :: string
  clock_iso :: string
  elapsed_ms :: nat
  remove_denied :: "string \<Rightarrow> bool"

definition isWindows :: "sys \<Rightarrow> bool" where
  "isWindows s = (os_platform s = ''win32'')"

definition APP_NAME :: string where
  "APP_NAME = ''database-cli-dumper''"

definition getConfigDir :: "sys \<Rightarrow> string" where
  "getConfigDir s =
     (if os_platform s = ''win32'' then
        let appData = (if truthy_str (env_APPDATA s) then the (env_APPDATA s)
                       else path_join [os_homedir s, ''AppData'', ''Roaming''])
        in path_join [appData, APP_NAME]
      else if truthy_str (env_XDG_CONFIG_HOME s) then
        path_join [the (env_XDG_CONFIG_HOME s), APP_NAME]
      else path_join [os_homedir s, ''.config'', APP_NAME])"

definition getConfigPath :: "sys \<Rightarrow> string option \<Rightarrow> string" where
  "getConfigPath s customPath =
     (if truthy_str customPath then the customPath
      else path_join [getConfigDir s, ''config.json''])"

definition getBinaryCacheDir :: "sys \<Rightarrow> string" where
  "getBinaryCacheDir s =
     path_join [os_homedir s, ''.'' @ APP_NAME, ''bin'', os_platform s @ ''-'' @ os_arch s]"


definition getBackupDir :: "sys \<Rightarrow> string" where
  "getBackupDir s = path_join [getConfigDir s, ''backups'']"


section \<open>types.ts\<close>

datatype DbType = Mysql

record DatabaseConfig =
  id' :: string
  dbType :: DbType
  environment :: string
  name :: string
  alias' :: "string option"
  host :: string
  port :: "real option"
  username :: string
  passwordRef :: string
  selectedFlags :: "string list"
  customFlags :: "string list option"
  gzipDefault :: "bool option"
  createdAt :: string
  updatedAt :: string

record Defaults =
  lastSelectedId :: "string option"
  dumpRootOverride :: "string option"

text \<open>
  The \<^verbatim>\<open>version\<close> of a configuration is typed \<^verbatim>\<open>number\<close>, but \<^verbatim>\<open>loadConfig\<close> casts what
  \<^verbatim>\<open>JSON.parse\<close> returns without checking it, and then tests the field for truthiness:
  the field is kept as the JSON value it is.  The \<^verbatim>\<open>databases\<close> field is a reference to
  an array: \<^verbatim>\<open>upsertDatabase\<close> updates the array in place, and the object literal
  \<^verbatim>\<open>{ ...DEFAULT_CONFIG }\<close> copies the reference, not the array.
\<close>

datatype jsval = JUndefined | JNull | JBool bool | JNum real | JStr string | JObject

fun truthy :: "jsval \<Rightarrow> bool" where
  "truthy JUndefined = False"
| "truthy JNull = False"
| "truthy (JBool b) = b"
| "truthy (JNum r) = (r \<noteq> 0)"
| "truthy (JStr s) = (s \<noteq> [])"
| "truthy JObject = True"

record ConfigFile =
  version :: jsval
  databases :: nat
  defaults :: "Defaults option"

text \<open>
  What \<^verbatim>\<open>loadConfig\<close> returns is typed \<^verbatim>\<open>ConfigFile\<close> by a cast that checks nothing: the
  value may have no \<^verbatim>\<open>databases\<close> at all.  It is a \<^verbatim>\<open>ConfigFile\<close> when it has one.
\<close>

record LoadedConfig =
  loaded_version :: jsval
  loaded_databases :: "nat option"
  loaded_defaults :: "Defaults option"

definition loaded_of :: "ConfigFile \<Rightarrow> LoadedConfig" where
  \<comment> \<open>\<^verbatim>\<open>{ ...config }\<close>: a new object with the same fields, the same array\<close>
  "loaded_of c =
     \<lparr>loaded_version = version c, loaded_databases = Some (databases c), loaded_defaults = defaults c\<rparr>"

definition config_of :: "LoadedConfig \<Rightarrow> ConfigFile option" where
  "config_of l =
     (case loaded_databases l of
        None \<Rightarrow> None
      | Some a \<Rightarrow> Some \<lparr>version = loaded_version l, databases = a, defaults = loaded_defaults l\<rparr>)"

datatype ArchiveType = Zip | TarGz | TarXz

record BinaryDescriptor =
  version' :: string
  platform :: string
  arch :: string
  url :: string
  sha256 :: string
  archiveType :: ArchiveType
  innerPathHints :: "string list option"

record DumpRequest =
  db :: DatabaseConfig
  password :: string
  outputPath :: string
  gzip :: bool
  excludeTables :: "string list"
  flags :: "string list"
  binaryPath :: string


record ConnectionTestResult =
  ok :: bool
  message :: "string option"
  error' :: "error option"

section \<open>configStore.ts\<close>

text \<open>
  The arrays of target definitions live in a store; address 0 holds the array of the
  module constant \<^verbatim>\<open>DEFAULT_CONFIG\<close>, allocated when the module is loaded.
\<close>

record store =
  arrays :: "nat \<Rightarrow> DatabaseConfig list"
  fresh :: nat

definition initial_store :: store where
  "initial_store = \<lparr>arrays = (\<lambda>_. []), fresh = 1\<rparr>"

definition SCHEMA_VERSION :: jsval where
  "SCHEMA_VERSION = JNum 1"

definition DEFAULT_CONFIG :: ConfigFile where
  "DEFAULT_CONFIG = \<lparr>version = SCHEMA_VERSION, databases = 0, defaults = None\<rparr>"

text \<open>
  What \<^verbatim>\<open>JSON.parse\<close> makes of a file is a parameter of the model: a syntax error,
  \<^verbatim>\<open>null\<close>, a number, string or boolean, an array, or an object.  Of an object the model
  keeps the \<^verbatim>\<open>version\<close> as the JSON value it is (absent: \<open>JUndefined\<close>), the array under
  \<^verbatim>\<open>databases\<close> if there is one, and the \<^verbatim>\<open>defaults\<close>; the entries of the array are trusted
  to be target definitions.  An array has none of the three keys.
\<close>

record raw_config =
  raw_version :: jsval
  raw_databases :: "DatabaseConfig list option"
  raw_defaults :: "Defaults option"

datatype parsed = ParsedNull | ParsedPrimitive | ParsedArray | ParsedObject raw_config

definition load_parsed :: "store \<Rightarrow> raw_config \<Rightarrow> LoadedConfig \<times> store" where
  \<comment> \<open>\<^verbatim>\<open>if (!parsed.version) parsed.version = 1; return parsed;\<close> with the array that
     \<^verbatim>\<open>JSON.parse\<close> allocated for \<^verbatim>\<open>databases\<close>\<close>
  "load_parsed st r =
     (let v = (if \<not> truthy (raw_version r) then JNum 1 else raw_version r) in
      case raw_databases r of
        None \<Rightarrow>
          (\<lparr>loaded_version = v, loaded_databases = None, loaded_defaults = raw_defaults r\<rparr>, st)
      | Some ds \<Rightarrow>
          (\<lparr>loaded_version = v, loaded_databases = Some (fresh st), loaded_defaults = raw_defaults r\<rparr>,
           st\<lparr>arrays := (arrays st)(fresh st := ds), fresh := Suc (fresh st)\<rparr>))"

definition ensureConfigDir :: "sys \<Rightarrow> node \<Rightarrow> string option \<Rightarrow> error + node" where
  "ensureConfigDir s fs configPath =
     (let target = (if truthy_str configPath then path_dirname (the configPath) else getConfigDir s)
      in ensureDir (process_cwd s) fs target)"

definition loadConfig ::
  "sys \<Rightarrow> (string \<Rightarrow> error + parsed) \<Rightarrow> store \<Rightarrow> node \<Rightarrow> string option
   \<Rightarrow> (error + LoadedConfig) \<times> store \<times> node" where
  "loadConfig s JSON_parse st fs customPath =
     (let filePath = getConfigPath s customPath in
      case ensureConfigDir s fs (Some filePath) of
        Inl e \<Rightarrow> (Inl e, st, fs)
      | Inr fs1 \<Rightarrow>
          if \<not> pathExists (process_cwd s) fs1 filePath then (Inr (loaded_of DEFAULT_CONFIG), st, fs1)
          else
            (case readFile (process_cwd s) fs1 filePath of
               Inl e \<Rightarrow> (Inl e, st, fs1)
             | Inr content \<Rightarrow>
                 (case JSON_parse content of
                    Inl e \<Rightarrow> (Inl e, st, fs1)
                  | Inr ParsedNull \<Rightarrow>
                      (Inl (TypeError ''Cannot read properties of null (reading 'version')''), st, fs1)
                  | Inr ParsedPrimitive \<Rightarrow>
                      (Inl (TypeError ''Cannot create property 'version' on a primitive''), st, fs1)
                  | Inr ParsedArray \<Rightarrow>
                      (Inr (fst (load_parsed st
                                   \<lparr>raw_version = JUndefined, raw_databases = None, raw_defaults = None\<rparr>)),
                       st, fs1)
                  | Inr (ParsedObject r) \<Rightarrow>
                      (Inr (fst (load_parsed st r)), snd (load_parsed st r), fs1))))"

fun findIndex :: "('a \<Rightarrow> bool) \<Rightarrow> 'a list \<Rightarrow> nat option" where
  \<comment> \<open>\<^verbatim>\<open>xs.findIndex(p)\<close>, with \<open>None\<close> for -1\<close>
  "findIndex p [] = None"
| "findIndex p (x # xs) = (if p x then Some 0 else map_option Suc (findIndex p xs))"

definition upsertDatabase :: "store \<Rightarrow> ConfigFile \<Rightarrow> DatabaseConfig \<Rightarrow> ConfigFile \<times> store" where
  "upsertDatabase st config entry =
     (let a = databases config in
      case findIndex (\<lambda>d. id' d = id' entry) (arrays st a) of
        Some idx \<Rightarrow> (config, st\<lparr>arrays := (arrays st)(a := (arrays st a)[idx := entry])\<rparr>)
      | None \<Rightarrow> (config, st\<lparr>arrays := (arrays st)(a := arrays st a @ [entry])\<rparr>))"

definition deleteDatabase :: "store \<Rightarrow> ConfigFile \<Rightarrow> string \<Rightarrow> ConfigFile \<times> store" where
  \<comment> \<open>\<^verbatim>\<open>filter\<close> makes a new array, which the configuration then refers to\<close>
  "deleteDatabase st config i =
     (config\<lparr>databases := fresh st\<rparr>,
      st\<lparr>arrays := (arrays st)(fresh st := filter (\<lambda>d. id' d \<noteq> i) (arrays st (databases config))),
         fresh := Suc (fresh st)\<rparr>)"

definition findDatabase :: "store \<Rightarrow> ConfigFile \<Rightarrow> string \<Rightarrow> DatabaseConfig option" where
  "findDatabase st config idOrAlias =
     find (\<lambda>d. id' d = idOrAlias \<or> alias' d = Some idOrAlias) (arrays st (databases config))"

section \<open>outputPaths.ts\<close>



section \<open>versionMap.ts\<close>

definition PINNED_MYSQL_VERSION :: string where
  "PINNED_MYSQL_VERSION = ''8.0.36''"

definition BINARY_MAP :: "BinaryDescriptor list" where
  "BINARY_MAP =
     [\<lparr>version' = PINNED_MYSQL_VERSION, platform = ''linux'', arch = ''x64'',
       url = ''https://cdn.mysql.com/archives/mysql-8.0/mysql-8.0.36-linux-glibc2.28-x86_64.tar.xz'',
       sha256 = ''ffd80e375834dd07e25cc3c7f03ae1950668ec606655c9cb2eafdfb7e37d6026'',
       archiveType = TarXz,
       innerPathHints = Some [''mysql-8.0.36-linux-glibc2.28-x86_64/bin/mysqldump'', ''bin/mysqldump'']\<rparr>,
      \<lparr>version' = PINNED_MYSQL_VERSION, platform = ''linux'', arch = ''arm64'',
       url = ''https://cdn.mysql.com/archives/mysql-8.0/mysql-8.0.36-linux-glibc2.28-aarch64.tar.xz'',
       sha256 = ''c05cc22cd0172e348739e2f269107702be24f500e5d820009d19b98ba596da7b'',
       archiveType = TarXz,
       innerPathHints = Some [''mysql-8.0.36-linux-glibc2.28-aarch64/bin/mysqldump'', ''bin/mysqldump'']\<rparr>,
      \<lparr>version' = PINNED_MYSQL_VERSION, platform = ''darwin'', arch = ''arm64'',
       url = ''https://cdn.mysql.com/archives/mysql-8.0/mysql-8.0.36-macos14-arm64.tar.gz'',
       sha256 = ''c419d50bcbde8ad5e2cb895a2784cca6f1cc30fb26492dbd230abc7bb7bd2377'',
       archiveType = TarGz,
       innerPathHints = Some [''mysql-8.0.36-macos14-arm64/bin/mysqldump'', ''bin/mysqldump'']\<rparr>,
      \<lparr>version' = PINNED_MYSQL_VERSION, platform = ''darwin'', arch = ''x64'',
       url = ''https://cdn.mysql.com/archives/mysql-8.0/mysql-8.0.36-macos14-x86_64.tar.gz'',
       sha256 = ''99ffdfc3178a4542e4b8ed12582525fb06020c79b8731f6672e55ae5b4357347'',
       archiveType = TarGz,
       innerPathHints = Some [''mysql-8.0.36-macos14-x86_64/bin/mysqldump'', ''bin/mysqldump'']\<rparr>,
      \<lparr>version' = PINNED_MYSQL_VERSION, platform = ''win32'', arch = ''x64'',
       url = ''https://cdn.mysql.com/archives/mysql-8.0/mysql-8.0.36-winx64.zip'',
       sha256 = ''a1bc2ad567eef672be20b591ad25b14f221e60bde3ae3eb235128d91e4166557'',
       archiveType = Zip,
       innerPathHints = Some [''mysql-8.0.36-winx64/bin/mysqldump.exe'', ''bin/mysqldump.exe'']\<rparr>]"

definition resolveBinaryDescriptor :: "string \<Rightarrow> string \<Rightarrow> BinaryDescriptor option" where
  "resolveBinaryDescriptor p a = find (\<lambda>b. platform b = p \<and> arch b = a) BINARY_MAP"

section \<open>checksum.ts\<close>

text \<open>SHA-256 itself, as a function from a content to its lowercase hex digest, is a parameter.\<close>

definition sha256File :: "(string \<Rightarrow> string) \<Rightarrow> string \<Rightarrow> node \<Rightarrow> string \<Rightarrow> error + string" where
  "sha256File sha256_hex cwd fs filePath =
     (case readFile cwd fs filePath of Inl e \<Rightarrow> Inl e | Inr c \<Rightarrow> Inr (sha256_hex c))"

section \<open>downloader.ts\<close>

text \<open>
  The network is a parameter: what \<^verbatim>\<open>https.get\<close> does for a URL (it throws at once, as
  it does for a URL whose protocol is not \<^verbatim>\<open>https:\<close>; or the request emits \<^verbatim>\<open>error\<close>; or
  a response arrives with its status code, its \<^verbatim>\<open>Location\<close> header and its body), whether
  \<^verbatim>\<open>new URL(s)\<close> accepts a string, and what \<^verbatim>\<open>new URL(location, base)\<close> gives (\<open>None\<close> when
  it throws).  The first \<^verbatim>\<open>https.get\<close> runs inside the promise executor, where an exception
  rejects the promise; the later ones, and \<^verbatim>\<open>new URL(location, base)\<close>, run inside the
  response callback, where nothing catches an exception and the promise is never settled.
  The progress observer is not modelled.
\<close>

record response =
  statusCode :: "nat option"
  location :: "string option"
  body :: string

datatype reply = GetThrows error | NetError string | Reply response

record net =
  https_get :: "string \<Rightarrow> reply"
  valid_url :: "string \<Rightarrow> bool"
  resolve_url :: "string \<Rightarrow> string \<Rightarrow> string option"

definition MAX_REDIRECTS :: nat where
  "MAX_REDIRECTS = 5"

definition redirect_location :: "response \<Rightarrow> string option" where
  \<comment> \<open>the \<^verbatim>\<open>Location\<close> of a response that the fetcher treats as a redirect\<close>
  "redirect_location res =
     (case statusCode res of
        None \<Rightarrow> None
      | Some c \<Rightarrow>
          if c \<noteq> 0 \<and> 300 \<le> c \<and> c < 400 \<and> truthy_str (location res) then location res
          else None)"

function request :: "net \<Rightarrow> string \<Rightarrow> nat \<Rightarrow> response outcome" where
  "request n currentUrl redirects =
     (case https_get n currentUrl of
        GetThrows e \<Rightarrow> if redirects = 0 then Raises e else Hangs e
      | NetError m \<Rightarrow> Raises (Error m)
      | Reply res \<Rightarrow>
          (case redirect_location res of
             Some loc \<Rightarrow>
               if redirects \<ge> MAX_REDIRECTS then Raises (Error ''Too many redirects'')
               else
                 (case resolve_url n loc currentUrl of
                    None \<Rightarrow> Hangs (TypeError ''Invalid URL'')
                  | Some next \<Rightarrow> request n next (redirects + 1))
           | None \<Rightarrow>
               if \<not> truthy_num (statusCode res) \<or> the (statusCode res) \<ge> 400 then
                 Raises (Error (''Download failed with status '' @ show_opt_nat (statusCode res) ''undefined''))
               else Returns res))"
  by pat_completeness auto
termination
  by (relation "measure (\<lambda>(n, u, r). MAX_REDIRECTS - r)") (auto simp: MAX_REDIRECTS_def)

declare request.simps [simp del]

definition downloadToFile :: "string \<Rightarrow> net \<Rightarrow> node \<Rightarrow> string \<Rightarrow> string \<Rightarrow> unit outcome \<times> node" where
  "downloadToFile cwd n fs urlStr destination =
     (case ensureDir cwd fs (path_dirname destination) of
        Inl e \<Rightarrow> (Raises e, fs)
      | Inr fs1 \<Rightarrow>
          if \<not> valid_url n urlStr then (Raises (TypeError ''Invalid URL''), fs1)
          else
            (case request n urlStr 0 of
               Raises e \<Rightarrow> (Raises e, fs1)
             | Hangs e \<Rightarrow> (Hangs e, fs1)
             | Returns res \<Rightarrow>
                 (case openWrite cwd fs1 destination of
                    Inl e \<Rightarrow> (Raises e, fs1)
                  | Inr fs2 \<Rightarrow> (Returns (), appendFile cwd fs2 destination (body res)))))"

section \<open>binaryManager.ts\<close>

text \<open>
  The state of \<^verbatim>\<open>ensureBinary\<close> is the file system and a log of the calls made to the
  fetcher, the checksum and the extractor.  The extractor (\<^verbatim>\<open>extract-zip\<close>, or \<^verbatim>\<open>tar\<close>
  run as a child process) is a parameter: for an archive type and a content it gives the
  entries it unpacks, or the error it fails with.
\<close>

datatype effect = Download string string | Checksum string | Extract string string

record world =
  files :: node
  effects :: "effect list"

definition BINARY_NAMES_win32 :: string where
  "BINARY_NAMES_win32 = ''mysqldump.exe''"

definition BINARY_NAMES_default :: string where
  "BINARY_NAMES_default = ''mysqldump''"

fun findBinary_entries :: "string \<Rightarrow> (string \<times> node) list \<Rightarrow> string list \<Rightarrow> string option" where
  \<comment> \<open>the loop of \<^verbatim>\<open>findBinary\<close> over the entries read from the directory \<open>root'\<close>\<close>
  "findBinary_entries root' [] names = None"
| "findBinary_entries root' ((nm, Dir sub) # es) names =
     (case findBinary_entries (path_join [root', nm]) sub names of
        Some found \<Rightarrow> if found \<noteq> [] then Some found else findBinary_entries root' es names
      | None \<Rightarrow> findBinary_entries root' es names)"
| "findBinary_entries root' ((nm, File c m) # es) names =
     (if nm \<in> set names then Some (path_join [root', nm])
      else findBinary_entries root' es names)"

definition findBinary :: "string \<Rightarrow> node \<Rightarrow> string \<Rightarrow> string list \<Rightarrow> error + string option" where
  "findBinary cwd fs root' names =
     (case lookup fs (fs_path cwd root') of
        None \<Rightarrow> Inl (SystemError ''ENOENT'' root')
      | Some (File _ _) \<Rightarrow> Inl (SystemError ''ENOTDIR'' root')
      | Some (Dir es) \<Rightarrow> Inr (findBinary_entries root' es names))"

definition archiveType_text :: "ArchiveType \<Rightarrow> string" where
  "archiveType_text t = (case t of Zip \<Rightarrow> ''zip'' | TarGz \<Rightarrow> ''tar.gz'' | TarXz \<Rightarrow> ''tar.xz'')"

definition archive_name :: "BinaryDescriptor \<Rightarrow> string" where
  \<comment> \<open>\<^verbatim>\<open>`mysqldump-${platform}-${arch}.${archiveType.replace('.', '')}`\<close>\<close>
  "archive_name d =
     ''mysqldump-'' @ platform d @ ''-'' @ arch d @ ''.'' @ remove1 CHR ''.'' (archiveType_text (archiveType d))"

definition target_path :: "sys \<Rightarrow> string" where
  \<comment> \<open>the cache path: \<^verbatim>\<open>path.join(cacheDir, binaryName)\<close>\<close>
  "target_path s =
     path_join [getBinaryCacheDir s, if isWindows s then BINARY_NAMES_win32 else BINARY_NAMES_default]"

definition tmp_dir :: "sys \<Rightarrow> string" where
  \<comment> \<open>the directory \<^verbatim>\<open>fs.mkdtemp(path.join(os.tmpdir(), 'mysqldump-download-'))\<close> makes\<close>
  "tmp_dir s = path_join [os_tmpdir s, ''mysqldump-download-''] @ mkdtemp_suffix s"

definition download_archive ::
  "sys \<Rightarrow> net \<Rightarrow> BinaryDescriptor \<Rightarrow> world \<Rightarrow> string outcome \<times> world" where
  \<comment> \<open>lines "Ensure cache directory exists" and "Prepare download": gives the archive's path\<close>
  "download_archive s n descriptor w =
     (case ensureDir (process_cwd s) (files w) (getBinaryCacheDir s) of
        Inl e \<Rightarrow> (Raises e, w)
      | Inr fs1 \<Rightarrow>
          (case mkdir (process_cwd s) fs1 (tmp_dir s) of
             Inl e \<Rightarrow> (Raises e, w\<lparr>files := fs1\<rparr>)
           | Inr fs2 \<Rightarrow>
               let archivePath = path_join [tmp_dir s, archive_name descriptor];
                   r = downloadToFile (process_cwd s) n fs2 (url descriptor) archivePath;
                   w' = \<lparr>files = snd r, effects = effects w @ [Download (url descriptor) archivePath]\<rparr>
               in case fst r of
                    Raises e \<Rightarrow> (Raises e, w')
                  | Hangs e \<Rightarrow> (Hangs e, w')
                  | Returns _ \<Rightarrow> (Returns archivePath, w')))"

definition verify_checksum ::
  "sys \<Rightarrow> (string \<Rightarrow> string) \<Rightarrow> BinaryDescriptor \<Rightarrow> string \<Rightarrow> world \<Rightarrow> (error + unit) \<times> world" where
  \<comment> \<open>lines "Verify checksum"\<close>
  "verify_checksum s sha256_hex descriptor archivePath w =
     (let w' = w\<lparr>effects := effects w @ [Checksum archivePath]\<rparr> in
      case sha256File sha256_hex (process_cwd s) (files w) archivePath of
        Inl e \<Rightarrow> (Inl e, w')
      | Inr actualSha \<Rightarrow>
          if sha256 descriptor \<noteq> [] \<and> sha256 descriptor \<noteq> ''REPLACE_WITH_OFFICIAL_SHA256''
             \<and> actualSha \<noteq> sha256 descriptor
          then (Inl (Error (''Checksum mismatch for mysqldump archive. Expected '' @ sha256 descriptor
                            @ '', got '' @ actualSha @ ''.'')), w')
          else (Inr (), w'))"

definition extract_archive ::
  "sys \<Rightarrow> (ArchiveType \<Rightarrow> string \<Rightarrow> error + (string \<times> node) list) \<Rightarrow> BinaryDescriptor \<Rightarrow> string
   \<Rightarrow> world \<Rightarrow> (error + string) \<times> world" where
  \<comment> \<open>lines "Extract" up to the search for the executable: gives the path found\<close>
  "extract_archive s unpack descriptor archivePath w =
     (let extractDir = path_join [tmp_dir s, ''extract''] in
      case ensureDir (process_cwd s) (files w) extractDir of
        Inl e \<Rightarrow> (Inl e, w)
      | Inr fs1 \<Rightarrow>
          let w1 = \<lparr>files = fs1, effects = effects w @ [Extract archivePath extractDir]\<rparr> in
          (case readFile (process_cwd s) fs1 archivePath of
             Inl e \<Rightarrow> (Inl e, w1)
           | Inr c \<Rightarrow>
               (case unpack (archiveType descriptor) c of
                  Inl e \<Rightarrow> (Inl e, w1)
                | Inr es \<Rightarrow>
                    (case put (fs_path (process_cwd s) extractDir) (Dir es) fs1 of
                       None \<Rightarrow> (Inl (SystemError ''ENOENT'' extractDir), w1)
                     | Some fs2 \<Rightarrow>
                         (case findBinary (process_cwd s) fs2 extractDir [''mysqldump'', ''mysqldump.exe''] of
                            Inl e \<Rightarrow> (Inl e, w1\<lparr>files := fs2\<rparr>)
                          | Inr found \<Rightarrow>
                              if \<not> truthy_str found then
                                (Inl (Error ''mysqldump binary not found in downloaded archive. Check version map or artifact layout.''),
                                 w1\<lparr>files := fs2\<rparr>)
                              else (Inr (the found), w1\<lparr>files := fs2\<rparr>))))))"

definition install_binary :: "sys \<Rightarrow> string \<Rightarrow> world \<Rightarrow> (error + string) \<times> world" where
  \<comment> \<open>the last lines: move, \<^verbatim>\<open>chmod 0o755\<close> (493), removal of the temporary directory\<close>
  "install_binary s found w =
     (case move_overwrite (process_cwd s) (files w) found (target_path s) of
        Inl e \<Rightarrow> (Inl e, w)
      | Inr fs1 \<Rightarrow>
          (case (if \<not> isWindows s then chmod (process_cwd s) fs1 (target_path s) 493 else Inr fs1) of
             Inl e \<Rightarrow> (Inl e, w\<lparr>files := fs1\<rparr>)
           | Inr fs2 \<Rightarrow>
               if remove_denied s (tmp_dir s) then
                 (Inl (SystemError ''EACCES'' (tmp_dir s)), w\<lparr>files := fs2\<rparr>)
               else
                 (Inr (target_path s), w\<lparr>files := remove (process_cwd s) fs2 (tmp_dir s)\<rparr>)))"

definition ensureBinary ::
  "sys \<Rightarrow> net \<Rightarrow> (string \<Rightarrow> string) \<Rightarrow> (ArchiveType \<Rightarrow> string \<Rightarrow> error + (string \<times> node) list)
   \<Rightarrow> world \<Rightarrow> string option \<Rightarrow> string outcome \<times> world" where
  "ensureBinary s n sha256_hex unpack w customPath =
     (if truthy_str customPath then
        let resolved = path_resolve (process_cwd s) (the customPath) in
        if \<not> pathExists (process_cwd s) (files w) resolved then
          (Raises (Error (''Binary override not found at '' @ resolved)), w)
        else (Returns resolved, w)
      else
        case resolveBinaryDescriptor (os_platform s) (os_arch s) of
          None \<Rightarrow>
            (Raises (Error (''Unsupported platform/arch: '' @ os_platform s @ ''-'' @ os_arch s
                            @ ''. Please update version map.'')), w)
        | Some descriptor \<Rightarrow>
            if pathExists (process_cwd s) (files w) (target_path s) then (Returns (target_path s), w)
            else
              (case download_archive s n descriptor w of
                 (Raises e, w1) \<Rightarrow> (Raises e, w1)
               | (Hangs e, w1) \<Rightarrow> (Hangs e, w1)
               | (Returns archivePath, w1) \<Rightarrow>
                   (case verify_checksum s sha256_hex descriptor archivePath w1 of
                      (Inl e, w2) \<Rightarrow> (Raises e, w2)
                    | (Inr _, w2) \<Rightarrow>
                        (case extract_archive s unpack descriptor archivePath w2 of
                           (Inl e, w3) \<Rightarrow> (Raises e, w3)
                         | (Inr found, w3) \<Rightarrow>
                             (case install_binary s found w3 of
                                (Inl e, w4) \<Rightarrow> (Raises e, w4)
                              | (Inr p, w4) \<Rightarrow> (Returns p, w4))))))"

section \<open>Child processes and promises\<close>

text \<open>
  A spawned process is what it makes the listeners see, in order: a chunk on the stream
  piped into the destination (the child's standard output, or the gzip stream fed by it),
  a chunk of standard error, the child's \<^verbatim>\<open>error\<close> event with its message, the child's
  \<^verbatim>\<open>exit\<close> event with its code (\<^verbatim>\<open>null\<close> when a signal ended it), or an \<^verbatim>\<open>error\<close> event
  of the destination stream.  Each listener runs to its end before the next event.  A
  promise is settled once: later calls of \<^verbatim>\<open>resolve\<close> and \<^verbatim>\<open>reject\<close> change nothing.

  \<^verbatim>\<open>spawn\<close> first checks its arguments and throws at once when the file name is empty or
  when the file name, an argument or a value of the environment has a NUL character;
  then the operating system is asked to start the process.  That part is a parameter of
  the model: from the executable, the argument vector and the value of \<^verbatim>\<open>MYSQL_PWD\<close> to
  the events, or to the exception \<^verbatim>\<open>spawn\<close> throws at once.  How a number is printed in a
  template literal is a parameter too.
\<close>

datatype proc_event =
    SourceData string
  | StderrData string
  | ChildError string
  | ChildExit "nat option"
  | OutputError string

datatype 'a promise = Pending | Fulfilled 'a | Rejected error

definition settle :: "'a promise \<Rightarrow> 'a promise \<Rightarrow> 'a promise" where
  "settle q p = (case p of Pending \<Rightarrow> q | _ \<Rightarrow> p)"

record runtime =
  os_spawn :: "string \<Rightarrow> string list \<Rightarrow> string \<Rightarrow> error + proc_event list"
  number_text :: "real \<Rightarrow> string"

definition spawn_argument_error :: "string \<Rightarrow> string list \<Rightarrow> string \<Rightarrow> error option" where
  \<comment> \<open>the checks of \<^verbatim>\<open>child_process.spawn\<close> on its arguments\<close>
  "spawn_argument_error file args pwd =
     (if file = [] then Some (TypeError ''ERR_INVALID_ARG_VALUE: the argument file cannot be empty'')
      else if CHR 0x00 \<in> set file \<or> list_ex (\<lambda>a. CHR 0x00 \<in> set a) args \<or> CHR 0x00 \<in> set pwd then
        Some (TypeError ''ERR_INVALID_ARG_VALUE: must be a string without null bytes'')
      else None)"

definition spawn :: "runtime \<Rightarrow> string \<Rightarrow> string list \<Rightarrow> string \<Rightarrow> error + proc_event list" where
  \<comment> \<open>\<^verbatim>\<open>spawn(file, args, { env: { ...process.env, MYSQL_PWD: pwd } })\<close>\<close>
  "spawn rt file args pwd =
     (case spawn_argument_error file args pwd of
        Some e \<Rightarrow> Inl e
      | None \<Rightarrow> os_spawn rt file args pwd)"

section \<open>connectionTester.ts\<close>

definition probe_args :: "runtime \<Rightarrow> DumpRequest \<Rightarrow> string list" where
  "probe_args rt req =
     [''--host='' @ host (db req), ''--user='' @ username (db req)]
     @ (if truthy_real (port (db req)) then [''--port='' @ number_text rt (the (port (db req)))] else [])
     @ [''--no-data'']
     @ [name (db req)]"

record probe_state =
  probe_stderr :: string
  probe_result :: "ConnectionTestResult promise"

definition probe_on :: "probe_state \<Rightarrow> proc_event \<Rightarrow> probe_state" where
  \<comment> \<open>the listeners of \<^verbatim>\<open>testConnection\<close>\<close>
  "probe_on st ev =
     (case ev of
        StderrData d \<Rightarrow> st\<lparr>probe_stderr := probe_stderr st @ d\<rparr>
      | ChildError m \<Rightarrow>
          st\<lparr>probe_result :=
               settle (Fulfilled \<lparr>ok = False, message = Some m, error' = Some (Error m)\<rparr>) (probe_result st)\<rparr>
      | ChildExit code \<Rightarrow>
          if code = Some 0 then
            st\<lparr>probe_result :=
                 settle (Fulfilled \<lparr>ok = True, message = None, error' = None\<rparr>) (probe_result st)\<rparr>
          else
            st\<lparr>probe_result :=
                 settle (Fulfilled \<lparr>ok = False,
                                    message = Some (if trim (probe_stderr st) \<noteq> [] then trim (probe_stderr st)
                                                    else ''mysqldump exited with code '' @ show_opt_nat code ''null''),
                                    error' = None\<rparr>)
                   (probe_result st)\<rparr>
      | _ \<Rightarrow> st)"

definition testConnection :: "runtime \<Rightarrow> DumpRequest \<Rightarrow> ConnectionTestResult promise" where
  \<comment> \<open>\<^verbatim>\<open>spawn\<close> is called inside the promise executor: what it throws rejects the promise\<close>
  "testConnection rt req =
     (case spawn rt (binaryPath req) (probe_args rt req) (password req) of
        Inl e \<Rightarrow> Rejected e
      | Inr events \<Rightarrow>
          probe_result (foldl probe_on \<lparr>probe_stderr = [], probe_result = Pending\<rparr> events))"

section \<open>dumpRunner.ts\<close>







section \<open>Normal absolute paths\<close>

text \<open>
  A path is in normal absolute form when it is \<^verbatim>\<open>/\<close> followed by clean segments joined
  by \<^verbatim>\<open>/\<close>; a segment is clean when it is not empty, not \<^verbatim>\<open>.\<close> or \<^verbatim>\<open>..\<close>, and has no
  separator.  \<^verbatim>\<open>os.homedir()\<close> and \<^verbatim>\<open>os.tmpdir()\<close> give such paths.  On them the path
  functions act on the list of segments.
\<close>

definition clean_segment :: "string \<Rightarrow> bool" where
  "clean_segment seg = (seg \<noteq> [] \<and> seg \<noteq> ''.'' \<and> seg \<noteq> ''..'' \<and> CHR ''/'' \<notin> set seg)"

definition abs_path_of :: "string list \<Rightarrow> string" where
  "abs_path_of segs = ''/'' @ join_with ''/'' segs"

lemma split_on_nonempty: "split_on c s \<noteq> []"
  by (induction s) (auto split: list.splits)

lemma split_on_no_sep: "c \<notin> set s \<Longrightarrow> split_on c s = [s]"
  by (induction s) auto

lemma split_on_sep_append: "c \<notin> set a \<Longrightarrow> split_on c (a @ c # b) = a # split_on c b"
  by (induction a) (auto split: list.splits)

lemma split_on_join:
  "segs \<noteq> [] \<Longrightarrow> \<forall>s \<in> set segs. c \<notin> set s \<Longrightarrow> split_on c (join_with [c] segs) = segs"
proof (induction segs)
  case Nil
  then show ?case by simp
next
  case (Cons x xs)
  show ?case
  proof (cases xs)
    case Nil
    with Cons.prems show ?thesis by (simp add: split_on_no_sep)
  next
    case (Cons y ys)
    with Cons.prems Cons.IH show ?thesis by (simp add: split_on_sep_append)
  qed
qed

lemma fold_normalize_clean:
  "\<forall>s \<in> set segs. s = [] \<or> clean_segment s
   \<Longrightarrow> fold (normalize_step a) segs st = rev (filter (\<lambda>s. s \<noteq> []) segs) @ st"
  by (induction segs arbitrary: st) (auto simp: normalize_step_def clean_segment_def)

lemma split_abs_path:
  "\<forall>s \<in> set segs. clean_segment s
   \<Longrightarrow> filter (\<lambda>s. s \<noteq> []) (split_on CHR ''/'' (abs_path_of segs)) = segs
       \<and> (\<forall>s \<in> set (split_on CHR ''/'' (abs_path_of segs)). s = [] \<or> clean_segment s)"
proof (cases "segs = []")
  case True
  then show ?thesis by (simp add: abs_path_of_def)
next
  case False
  assume c: "\<forall>s \<in> set segs. clean_segment s"
  then have ns: "\<forall>s \<in> set segs. CHR ''/'' \<notin> set s" by (auto simp: clean_segment_def)
  have "split_on CHR ''/'' (abs_path_of segs) = [] # segs"
    using split_on_join[OF False ns] by (simp add: abs_path_of_def)
  moreover have "filter (\<lambda>s. s \<noteq> []) segs = segs"
    using c by (auto simp: clean_segment_def filter_id_conv)
  ultimately show ?thesis using c by simp
qed

lemma normalize_segments_abs:
  "\<forall>s \<in> set segs. clean_segment s \<Longrightarrow> normalize_segments a (abs_path_of segs) = segs"
  using split_abs_path[of segs] by (simp add: normalize_segments_def fold_normalize_clean)


lemma split_on_append: "split_on c (x @ c # y) = split_on c x @ split_on c y"
proof (induction x)
  case Nil
  then show ?case by simp
next
  case (Cons a x)
  obtain h t where ht: "split_on c x = h # t"
    using split_on_nonempty[of c x] by (cases "split_on c x") auto
  with Cons show ?case by simp
qed

lemma join_with_Cons: "join_with sep (x # xs) = (if xs = [] then x else x @ sep @ join_with sep xs)"
  by (cases xs) auto

lemma join_with_append:
  "xs \<noteq> [] \<Longrightarrow> ys \<noteq> [] \<Longrightarrow> join_with sep (xs @ ys) = join_with sep xs @ sep @ join_with sep ys"
  by (induction xs) (auto simp: join_with_Cons)

lemma join_with_snoc_append: "join_with sep (xs @ [x]) @ y = join_with sep (xs @ [x @ y])"
  by (induction xs) (auto simp: join_with_Cons)

lemma join_with_eq_Nil: "xs \<noteq> [] \<Longrightarrow> hd xs \<noteq> [] \<Longrightarrow> join_with sep xs \<noteq> []"
  by (cases xs) (auto simp: join_with_Cons)

lemma join_with_last_nonempty: "xs \<noteq> [] \<Longrightarrow> last xs \<noteq> [] \<Longrightarrow> join_with sep xs \<noteq> []"
  by (induction xs) (auto simp: join_with_Cons)

lemma last_join_with:
  "xs \<noteq> [] \<Longrightarrow> last xs \<noteq> [] \<Longrightarrow> last (join_with sep xs) = last (last xs)"
  by (induction xs) (auto simp: join_with_Cons join_with_last_nonempty)

lemma clean_segment_facts:
  "clean_segment s \<Longrightarrow> s \<noteq> [] \<and> CHR ''/'' \<notin> set s \<and> last s \<noteq> CHR ''/''"
  by (metis clean_segment_def last_in_set)

lemma normalize_segments_abs_join:
  assumes "\<forall>s \<in> set segs. clean_segment s" "\<forall>s \<in> set names. clean_segment s" "names \<noteq> []"
  shows "normalize_segments a (abs_path_of segs @ CHR ''/'' # join_with ''/'' names) = segs @ names"
proof -
  have ns: "\<forall>s \<in> set names. CHR ''/'' \<notin> set s" using assms(2) by (auto simp: clean_segment_def)
  have sp: "split_on CHR ''/'' (join_with ''/'' names) = names"
    using split_on_join[OF assms(3) ns] by simp
  have f1: "fold (normalize_step a) (split_on CHR ''/'' (abs_path_of segs)) [] = rev segs"
    using split_abs_path[OF assms(1)] by (simp add: fold_normalize_clean)
  have f2: "fold (normalize_step a) names (rev segs) = rev names @ rev segs"
    using assms(2) by (subst fold_normalize_clean) (auto simp: clean_segment_def filter_id_conv)
  have "split_on CHR ''/'' (abs_path_of segs @ CHR ''/'' # join_with ''/'' names)
        = split_on CHR ''/'' (abs_path_of segs) @ names"
    using split_on_append[of "CHR ''/''" "abs_path_of segs" "join_with ''/'' names"] sp by simp
  then show ?thesis by (simp add: normalize_segments_def f1 f2)
qed

lemma abs_path_of_nonempty: "abs_path_of segs \<noteq> []" "isAbsolute (abs_path_of segs)"
  by (simp_all add: abs_path_of_def isAbsolute_def)

lemma path_normalize_abs:
  assumes "\<forall>s \<in> set segs. clean_segment s"
  shows "path_normalize (abs_path_of segs) = abs_path_of segs"
proof (cases "segs = []")
  case True
  then show ?thesis
    by (simp add: path_normalize_def abs_path_of_def isAbsolute_def normalizeString_def
        normalize_segments_def normalize_step_def)
next
  case False
  have ls: "clean_segment (last segs)" "clean_segment (hd segs)" using assms False by auto
  have l: "last (abs_path_of segs) \<noteq> CHR ''/''"
    using False ls clean_segment_facts[of "last segs"]
    by (simp add: abs_path_of_def join_with_eq_Nil clean_segment_facts last_join_with)
  have r: "normalizeString False (abs_path_of segs) = join_with ''/'' segs"
    by (simp add: normalizeString_def normalize_segments_abs[OF assms])
  have "join_with ''/'' segs \<noteq> []"
    using False ls clean_segment_facts[of "hd segs"] by (simp add: join_with_eq_Nil)
  then show ?thesis
    using l r by (simp add: path_normalize_def abs_path_of_nonempty Let_def) (simp add: abs_path_of_def)
qed

lemma path_join_abs:
  assumes "\<forall>s \<in> set segs. clean_segment s" "\<forall>s \<in> set names. clean_segment s"
  shows "path_join (abs_path_of segs # names) = abs_path_of (segs @ names)"
proof (cases "names = []")
  case True
  then show ?thesis
    by (simp add: path_join_def abs_path_of_nonempty path_normalize_abs[OF assms(1)])
next
  case False
  let ?j = "abs_path_of segs @ CHR ''/'' # join_with ''/'' names"
  have ne: "filter (\<lambda>a. a \<noteq> []) names = names"
    using assms(2) by (auto simp: clean_segment_def filter_id_conv)
  have parts: "filter (\<lambda>a. a \<noteq> []) (abs_path_of segs # names) = abs_path_of segs # names"
    by (simp add: abs_path_of_nonempty ne)
  have j: "join_with ''/'' (abs_path_of segs # names) = ?j"
    using False by (simp add: join_with_Cons)
  have ln: "clean_segment (last names)" "clean_segment (hd names)" using assms(2) False by auto
  have jn: "join_with ''/'' names \<noteq> []"
    using False ln clean_segment_facts[of "hd names"] by (simp add: join_with_eq_Nil)
  have l: "last ?j \<noteq> CHR ''/''"
    using False ln clean_segment_facts[of "last names"] jn by (simp add: last_join_with)
  have segs': "normalize_segments False ?j = segs @ names"
    by (rule normalize_segments_abs_join[OF assms False])
  have abs: "isAbsolute ?j" by (simp add: isAbsolute_def abs_path_of_def)
  have r: "normalizeString False ?j = join_with ''/'' (segs @ names)"
    by (simp add: normalizeString_def segs')
  have rne: "join_with ''/'' (segs @ names) \<noteq> []"
  proof (cases "segs = []")
    case True then show ?thesis using jn by simp
  next
    case False
    then have "clean_segment (hd segs)" using assms(1) by auto
    with False show ?thesis using clean_segment_facts[of "hd segs"] by (simp add: join_with_eq_Nil)
  qed
  have pn: "path_normalize ?j = abs_path_of (segs @ names)"
    using l abs r rne by (simp add: path_normalize_def Let_def abs_path_of_def)
  show ?thesis
    unfolding path_join_def Let_def parts j pn by simp
qed

lemma fs_path_abs:
  "\<forall>s \<in> set segs. clean_segment s \<Longrightarrow> fs_path cwd (abs_path_of segs) = segs"
  by (simp add: fs_path_def abs_path_of_nonempty normalize_segments_abs)


lemma abs_path_of_snoc_append: "abs_path_of (xs @ [x]) @ y = abs_path_of (xs @ [x @ y])"
  by (simp add: abs_path_of_def join_with_snoc_append)

lemma dropWhile_name:
  assumes "n \<noteq> []" "CHR ''/'' \<notin> set n"
  shows "dropWhile (\<lambda>c. c \<noteq> CHR ''/'') (dropWhile (\<lambda>c. c = CHR ''/'') (rev n @ rest))
         = dropWhile (\<lambda>c. c \<noteq> CHR ''/'') rest"
proof -
  obtain a m where am: "rev n = a # m" using assms(1) by (cases "rev n") auto
  then have "a \<in> set n" by (metis list.set_intros(1) set_rev)
  then have a: "a \<noteq> CHR ''/''" using assms(2) by auto
  have "\<And>x. x \<in> set (rev n) \<Longrightarrow> x \<noteq> CHR ''/''" using assms(2) by auto
  then have "dropWhile (\<lambda>c. c \<noteq> CHR ''/'') (rev n @ rest) = dropWhile (\<lambda>c. c \<noteq> CHR ''/'') rest"
    by (rule dropWhile_append2)
  moreover have "dropWhile (\<lambda>c. c = CHR ''/'') (rev n @ rest) = rev n @ rest"
    using am a by simp
  ultimately show ?thesis by simp
qed

lemma path_dirname_abs:
  assumes "\<forall>s \<in> set segs. clean_segment s" "clean_segment n"
  shows "path_dirname (abs_path_of (segs @ [n])) = abs_path_of segs"
proof -
  have n: "n \<noteq> []" "CHR ''/'' \<notin> set n" using assms(2) by (auto simp: clean_segment_def)
  show ?thesis
  proof (cases "segs = []")
    case True
    have "dropWhile (\<lambda>c. c \<noteq> CHR ''/'') (dropWhile (\<lambda>c. c = CHR ''/'') (rev n @ []))
          = dropWhile (\<lambda>c. c \<noteq> CHR ''/'') []"
      by (rule dropWhile_name[OF n])
    then have d: "dropWhile (\<lambda>c. c \<noteq> CHR ''/'') (dropWhile (\<lambda>c. c = CHR ''/'') (rev n)) = []"
      by (simp only: append_Nil2 dropWhile.simps)
    have "path_dirname (CHR ''/'' # n) = ''/''"
      by (simp add: path_dirname_def Let_def d del: dropWhile_eq_Nil_conv)
    with True show ?thesis by (simp add: abs_path_of_def)
  next
    case False
    have j: "join_with ''/'' (segs @ [n]) = join_with ''/'' segs @ CHR ''/'' # n"
      using False by (simp add: join_with_append)
    have "clean_segment (hd segs)" using assms(1) False by auto
    then have jne: "join_with ''/'' segs \<noteq> []"
      using False clean_segment_facts[of "hd segs"] by (simp add: join_with_eq_Nil)
    have d: "dropWhile (\<lambda>c. c \<noteq> CHR ''/'') (dropWhile (\<lambda>c. c = CHR ''/'') (rev n @ CHR ''/'' # rev (join_with ''/'' segs)))
             = CHR ''/'' # rev (join_with ''/'' segs)"
      by (simp only: dropWhile_name[OF n] dropWhile.simps simp_thms if_False)
    have "path_dirname (CHR ''/'' # (join_with ''/'' segs @ CHR ''/'' # n)) = CHR ''/'' # join_with ''/'' segs"
      using jne by (simp add: path_dirname_def Let_def d del: dropWhile_eq_Nil_conv)
    then show ?thesis by (simp add: abs_path_of_def j)
  qed
qed

section \<open>Frame properties of the file system\<close>

lemma lookup_append:
  "lookup n (p @ q) = (case lookup n p of None \<Rightarrow> None | Some c \<Rightarrow> lookup c q)"
  by (induction p arbitrary: n) (auto split: node.splits option.splits)

lemma lookup_prefix_exists: "lookup n (p @ q) \<noteq> None \<Longrightarrow> lookup n p \<noteq> None"
  by (simp add: lookup_append split: option.splits)

lemma lookup_File: "lookup (File c m) p = (if p = [] then Some (File c m) else None)"
  by (cases p) auto

lemma lookup_Dir_Nil: "lookup (Dir []) p = (if p = [] then Some (Dir []) else None)"
  by (cases p) auto

lemma put_lookup_below: "put p new n = Some n' \<Longrightarrow> lookup n' (p @ r) = lookup new r"
  by (induction p arbitrary: n n')
     (auto split: node.splits option.splits if_splits simp: update_conv')

lemma put_lookup_other:
  "put p new n = Some n' \<Longrightarrow> \<not> prefix p q \<Longrightarrow> \<not> prefix q p \<Longrightarrow> lookup n' q = lookup n q"
proof (induction p arbitrary: n n' q)
  case Nil
  then show ?case by simp
next
  case (Cons s ss)
  then obtain t ts where q: "q = t # ts" by (cases q) auto
  from Cons.prems(1) obtain es where n: "n = Dir es" by (cases n) auto
  show ?case
  proof (cases "t = s")
    case False
    with Cons.prems q n show ?thesis
      by (auto split: option.splits if_splits simp: update_conv')
  next
    case True
    with Cons.prems q have np: "\<not> prefix ss ts" "\<not> prefix ts ss" by auto
    then have "ss \<noteq> []" by auto
    with Cons.prems(1) n obtain c c' where c: "map_of es s = Some c" "put ss new c = Some c'"
      "n' = Dir (AList.update s c' es)"
      by (auto split: option.splits)
    from Cons.IH[OF c(2) np] show ?thesis
      using q n True c by (simp add: update_conv')
  qed
qed

lemma put_ancestors:
  "put p new n = Some n' \<Longrightarrow> strict_prefix q p \<Longrightarrow> lookup n q \<noteq> None \<and> lookup n' q \<noteq> None"
proof (induction p arbitrary: n n' q)
  case Nil
  then show ?case by simp
next
  case (Cons s ss)
  from Cons.prems(1) obtain es where n: "n = Dir es" by (cases n) auto
  show ?case
  proof (cases q)
    case Nil
    then show ?thesis by simp
  next
    case q: (Cons t ts)
    with Cons.prems(2) have t: "t = s" and sp: "strict_prefix ts ss" by auto
    then have "ss \<noteq> []" by auto
    with Cons.prems(1) n obtain c c' where c: "map_of es s = Some c" "put ss new c = Some c'"
      "n' = Dir (AList.update s c' es)"
      by (auto split: option.splits)
    from Cons.IH[OF c(2) sp] show ?thesis
      using q t n c by (simp add: update_conv')
  qed
qed

lemma put_exists:
  assumes "put p new n = Some n'"
  shows "(lookup n' q \<noteq> None)
         = (if prefix p q then lookup new (drop (length p) q) \<noteq> None else lookup n q \<noteq> None)"
proof (cases "prefix p q")
  case True
  then obtain r where "q = p @ r" by (auto simp: prefix_def)
  with assms True show ?thesis by (simp add: put_lookup_below)
next
  case False
  show ?thesis
  proof (cases "prefix q p")
    case True
    with False have "strict_prefix q p" by (auto simp: strict_prefix_def)
    from put_ancestors[OF assms this] False show ?thesis by simp
  next
    case nq: False
    from put_lookup_other[OF assms False nq] False show ?thesis by simp
  qed
qed

lemma mkdirp_exists:
  "mkdirp d n = Some n' \<Longrightarrow> (lookup n' q \<noteq> None) = (lookup n q \<noteq> None \<or> prefix q d)"
proof (induction d arbitrary: n n' q)
  case Nil
  then show ?case by (cases q) (auto split: node.splits)
next
  case (Cons s ss)
  from Cons.prems obtain es where n: "n = Dir es" by (cases n) auto
  define c0 where "c0 = (case map_of es s of None \<Rightarrow> Dir [] | Some c \<Rightarrow> c)"
  from Cons.prems n obtain c' where c: "mkdirp ss c0 = Some c'" "n' = Dir (AList.update s c' es)"
    by (auto simp: c0_def)
  show ?case
  proof (cases q)
    case Nil
    then show ?thesis by simp
  next
    case q: (Cons t ts)
    show ?thesis
    proof (cases "t = s")
      case False
      then show ?thesis using q n c by (simp add: update_conv')
    next
      case True
      have ih: "(lookup c' ts \<noteq> None) = (lookup c0 ts \<noteq> None \<or> prefix ts ss)"
        by (rule Cons.IH[OF c(1)])
      have "(lookup c0 ts \<noteq> None \<or> prefix ts ss) = (lookup n (s # ts) \<noteq> None \<or> prefix ts ss)"
        using n by (auto simp: c0_def lookup_Dir_Nil split: option.splits)
      then show ?thesis using q True n c ih by (simp add: update_conv')
    qed
  qed
qed


lemma ensureDir_exists:
  "ensureDir cwd fs d = Inr fs'
   \<Longrightarrow> (lookup fs' q \<noteq> None) = (lookup fs q \<noteq> None \<or> prefix q (fs_path cwd d))"
proof -
  assume "ensureDir cwd fs d = Inr fs'"
  then have "mkdirp (fs_path cwd d) fs = Some fs'"
    by (simp add: ensureDir_def split: option.splits node.splits)
  then show ?thesis by (rule mkdirp_exists)
qed

lemma mkdir_exists:
  assumes "mkdir cwd fs p = Inr fs'"
  shows "(lookup fs' q \<noteq> None) = (lookup fs q \<noteq> None \<or> q = fs_path cwd p)"
proof -
  from assms have absent: "lookup fs (fs_path cwd p) = None"
    and put: "put (fs_path cwd p) (Dir []) fs = Some fs'"
    by (auto simp: mkdir_def split: if_splits option.splits)
  show ?thesis
  proof (cases "prefix (fs_path cwd p) q")
    case True
    then obtain r where q: "q = fs_path cwd p @ r" by (auto simp: prefix_def)
    have "lookup fs q = None" using absent q by (simp add: lookup_append)
    with put_exists[OF put, of q] True q show ?thesis by (simp add: lookup_Dir_Nil)
  next
    case False
    with put_exists[OF put, of q] show ?thesis by auto
  qed
qed

lemma openWrite_exists:
  assumes "openWrite cwd fs p = Inr fs'"
  shows "(lookup fs' q \<noteq> None) = (lookup fs q \<noteq> None \<or> q = fs_path cwd p)"
proof -
  from assms obtain m where put: "put (fs_path cwd p) (File [] m) fs = Some fs'"
    and old: "lookup fs (fs_path cwd p) = None \<or> (\<exists>c. lookup fs (fs_path cwd p) = Some (File c m))"
    by (auto simp: openWrite_def split: option.splits node.splits)
  show ?thesis
  proof (cases "prefix (fs_path cwd p) q")
    case True
    then obtain r where q: "q = fs_path cwd p @ r" by (auto simp: prefix_def)
    have "lookup fs q \<noteq> None \<longrightarrow> r = []"
      using old q by (auto simp: lookup_append lookup_File split: if_splits)
    with put_exists[OF put, of q] True q show ?thesis by (auto simp: lookup_File)
  next
    case False
    with put_exists[OF put, of q] show ?thesis by auto
  qed
qed

lemma appendFile_exists: "(lookup (appendFile cwd fs p chunk) q \<noteq> None) = (lookup fs q \<noteq> None)"
proof (cases "lookup fs (fs_path cwd p)")
  case None
  then show ?thesis by (simp add: appendFile_def)
next
  case (Some nd)
  show ?thesis
  proof (cases nd)
    case (Dir es)
    with Some show ?thesis by (simp add: appendFile_def)
  next
    case (File c m)
    show ?thesis
    proof (cases "put (fs_path cwd p) (File (c @ chunk) m) fs")
      case None
      with Some File show ?thesis by (simp add: appendFile_def)
    next
      case put: (Some fs')
      have eq: "appendFile cwd fs p chunk = fs'" using Some File put by (simp add: appendFile_def)
      show ?thesis
      proof (cases "prefix (fs_path cwd p) q")
        case True
        then obtain r where q: "q = fs_path cwd p @ r" by (auto simp: prefix_def)
        with put_exists[OF put, of q] True Some File show ?thesis
          by (simp add: eq lookup_append lookup_File)
      next
        case False
        with put_exists[OF put, of q] show ?thesis by (simp add: eq)
      qed
    qed
  qed
qed

section \<open>A sample machine\<close>

definition sample_sys :: sys where
  "sample_sys =
     \<lparr>os_platform = ''linux'', os_arch = ''x64'', os_homedir = ''/h'', os_tmpdir = ''/t'',
      process_cwd = ''/'', env_APPDATA = None, env_XDG_CONFIG_HOME = None,
      mkdtemp_suffix = ''Ab12cd'', clock_iso = ''2024-05-06T07:08:09.123Z'', elapsed_ms = 5,
      remove_denied = (\<lambda>_. False)\<rparr>"

lemma sample_sys_simps:
  "os_platform sample_sys = ''linux''"
  "os_arch sample_sys = ''x64''"
  "os_homedir sample_sys = ''/h''"
  "os_tmpdir sample_sys = ''/t''"
  "process_cwd sample_sys = ''/''"
  "env_APPDATA sample_sys = None"
  "env_XDG_CONFIG_HOME sample_sys = None"
  "mkdtemp_suffix sample_sys = ''Ab12cd''"
  "clock_iso sample_sys = ''2024-05-06T07:08:09.123Z''"
  "elapsed_ms sample_sys = 5"
  "remove_denied sample_sys = (\<lambda>_. False)"
  by (simp_all add: sample_sys_def)

section \<open>Events before the child ends\<close>

definition is_child_end :: "proc_event \<Rightarrow> bool" where
  \<comment> \<open>the child's \<^verbatim>\<open>exit\<close> and \<^verbatim>\<open>error\<close> events\<close>
  "is_child_end ev = (case ev of ChildExit _ \<Rightarrow> True | ChildError _ \<Rightarrow> True | _ \<Rightarrow> False)"

definition captured_stderr :: "proc_event list \<Rightarrow> string" where
  \<comment> \<open>the standard error of the child in a run of events\<close>
  "captured_stderr evs = concat (map (\<lambda>ev. case ev of StderrData d \<Rightarrow> d | _ \<Rightarrow> []) evs)"

definition sample_request :: DumpRequest where
  "sample_request =
     \<lparr>db = \<lparr>id' = ''a'', dbType = Mysql, environment = ''local'', name = ''sample-db'', alias' = None,
            host = ''localhost'', port = None, username = ''root'', passwordRef = ''plaintext:pw'',
            selectedFlags = [''single-transaction'', ''quick''], customFlags = None,
            gzipDefault = None, createdAt = ''2024-01-01T00:00:00.000Z'',
            updatedAt = ''2024-01-01T00:00:00.000Z''\<rparr>,
      password = ''pw'', outputPath = ''/o/d.sql'', gzip = False, excludeTables = [],
      flags = [''--single-transaction'', ''--quick''], binaryPath = ''/bin/mysqldump''\<rparr>"

section \<open>Properties of secrets.ts\<close>

lemma startsWith_append: "startsWith (p @ s) p"
  by (simp add: startsWith_def)

text \<open>
  Claim C10.  When keytar is unavailable, \<^verbatim>\<open>savePassword(p)\<close> returns the reference
  \<^verbatim>\<open>"plaintext:" + p\<close>; \<^verbatim>\<open>resolvePassword\<close> of any reference of that shape returns
  the suffix after the prefix; so resolving what was saved gives back the password.
\<close>

theorem plaintext_save_resolve:
  "ref (fst (savePassword None uuid p existingRef)) = ''plaintext:'' @ p
   \<and> resolvePassword kt (''plaintext:'' @ s) = Some s
   \<and> resolvePassword kt (ref (fst (savePassword None uuid p existingRef))) = Some p"
  by (simp add: savePassword_def resolvePassword_def startsWith_def slice_from_def Let_def)

theorem plaintext_save_resolve_witness:
  "ref (fst (savePassword None ''u-1'' ''s3cret'' None)) = ''plaintext:s3cret''
   \<and> resolvePassword None ''plaintext:s3cret'' = Some ''s3cret''"
  using plaintext_save_resolve [of "''u-1''" "''s3cret''" None None "''s3cret''"]
  by simp

section \<open>Properties of configStore.ts\<close>

definition targets :: "store \<Rightarrow> ConfigFile \<Rightarrow> DatabaseConfig list" where
  \<comment> \<open>the target list a configuration refers to\<close>
  "targets st config = arrays st (databases config)"

definition delete_upsert :: "store \<Rightarrow> ConfigFile \<Rightarrow> DatabaseConfig \<Rightarrow> ConfigFile \<times> store" where
  \<comment> \<open>\<^verbatim>\<open>deleteDatabase(upsertDatabase(config, entry), entry.id)\<close>\<close>
  "delete_upsert st config entry =
     (case upsertDatabase st config entry of (c1, st1) \<Rightarrow> deleteDatabase st1 c1 (id' entry))"

definition sample_entry :: "string \<Rightarrow> string \<Rightarrow> DatabaseConfig" where
  \<comment> \<open>the entry of \<^verbatim>\<open>test/configStore.test.js\<close>, with a chosen id and host\<close>
  "sample_entry i h =
     \<lparr>id' = i, dbType = Mysql, environment = ''test'', name = ''sample-db'', alias' = None,
      host = h, port = None, username = ''root'', passwordRef = ''password-ref'',
      selectedFlags = [], customFlags = None, gzipDefault = None,
      createdAt = ''2024-01-01T00:00:00.000Z'', updatedAt = ''2024-01-01T00:00:00.000Z''\<rparr>"

lemma findIndex_None: "findIndex p xs = None \<Longrightarrow> filter (\<lambda>x. \<not> p x) xs = xs"
  by (induction xs) (auto split: if_splits)

lemma findIndex_None_iff: "(findIndex p xs = None) = (\<forall>x \<in> set xs. \<not> p x)"
  by (induction xs) auto

lemma findIndex_Some_update:
  "findIndex p xs = Some idx \<Longrightarrow> p e
   \<Longrightarrow> filter (\<lambda>x. \<not> p x) (xs[idx := e]) = filter (\<lambda>x. \<not> p x) xs"
  by (induction xs arbitrary: idx) (auto split: if_splits)

lemma targets_delete_upsert:
  "targets (snd (delete_upsert st config entry)) (fst (delete_upsert st config entry))
   = filter (\<lambda>d. id' d \<noteq> id' entry) (targets st config)"
proof (cases "findIndex (\<lambda>d. id' d = id' entry) (arrays st (databases config))")
  case None
  then show ?thesis
    by (simp add: delete_upsert_def upsertDatabase_def deleteDatabase_def targets_def Let_def)
next
  case (Some idx)
  from findIndex_Some_update[OF Some, of entry] Some show ?thesis
    by (simp add: delete_upsert_def upsertDatabase_def deleteDatabase_def targets_def Let_def)
qed

text \<open>
  Claim C7, as the code has it.  \<^verbatim>\<open>deleteDatabase(upsertDatabase(config, entry), entry.id)\<close>
  leaves the target list that the configuration had before, without the targets whose id
  is \<^verbatim>\<open>entry.id\<close>; when no target had that id, it is the list as it was before the upsert,
  so the count and the membership are restored.
\<close>

theorem delete_upsert_restores:
  "targets (snd (delete_upsert st config entry)) (fst (delete_upsert st config entry))
     = filter (\<lambda>d. id' d \<noteq> id' entry) (targets st config)
   \<and> (id' entry \<notin> id' ` set (targets st config)
        \<longrightarrow> targets (snd (delete_upsert st config entry)) (fst (delete_upsert st config entry))
            = targets st config)"
proof -
  have "filter (\<lambda>d. id' d \<noteq> id' entry) (targets st config) = targets st config"
    if "id' entry \<notin> id' ` set (targets st config)"
    using that by (intro filter_True) (auto simp: image_iff)
  then show ?thesis by (simp add: targets_delete_upsert)
qed

lemma sample_entry_id: "id' (sample_entry i h) = i"
  by (simp add: sample_entry_def)

theorem delete_upsert_restores_witness:
  "id' (sample_entry ''b'' ''h2'') \<notin> id' ` set (targets (snd (upsertDatabase initial_store DEFAULT_CONFIG (sample_entry ''a'' ''h1''))) DEFAULT_CONFIG)
   \<and> targets (snd (delete_upsert (snd (upsertDatabase initial_store DEFAULT_CONFIG (sample_entry ''a'' ''h1''))) DEFAULT_CONFIG (sample_entry ''b'' ''h2'')))
        (fst (delete_upsert (snd (upsertDatabase initial_store DEFAULT_CONFIG (sample_entry ''a'' ''h1''))) DEFAULT_CONFIG (sample_entry ''b'' ''h2'')))
      = [sample_entry ''a'' ''h1'']"
proof -
  let ?st = "snd (upsertDatabase initial_store DEFAULT_CONFIG (sample_entry ''a'' ''h1''))"
  have t: "targets ?st DEFAULT_CONFIG = [sample_entry ''a'' ''h1'']"
    by (simp add: targets_def upsertDatabase_def initial_store_def DEFAULT_CONFIG_def Let_def)
  have n: "id' (sample_entry ''b'' ''h2'') \<notin> id' ` set (targets ?st DEFAULT_CONFIG)"
    by (simp add: t sample_entry_id)
  from delete_upsert_restores[of ?st DEFAULT_CONFIG "sample_entry ''b'' ''h2''"] n t
  show ?thesis by simp
qed

text \<open>
  The claim as it is written fails when the configuration already has a target with the
  id of the entry: the upsert replaces that target, the delete removes it, and one target
  fewer is left.
\<close>

theorem delete_upsert_counterexample:
  "length (targets (snd (delete_upsert (snd (upsertDatabase initial_store DEFAULT_CONFIG (sample_entry ''a'' ''h1''))) DEFAULT_CONFIG (sample_entry ''a'' ''h2'')))
        (fst (delete_upsert (snd (upsertDatabase initial_store DEFAULT_CONFIG (sample_entry ''a'' ''h1''))) DEFAULT_CONFIG (sample_entry ''a'' ''h2''))))
   \<noteq> length (targets (snd (upsertDatabase initial_store DEFAULT_CONFIG (sample_entry ''a'' ''h1''))) DEFAULT_CONFIG)"
proof -
  let ?st = "snd (upsertDatabase initial_store DEFAULT_CONFIG (sample_entry ''a'' ''h1''))"
  have t: "targets ?st DEFAULT_CONFIG = [sample_entry ''a'' ''h1'']"
    by (simp add: targets_def upsertDatabase_def initial_store_def DEFAULT_CONFIG_def Let_def)
  show ?thesis
    by (simp add: targets_delete_upsert t sample_entry_id)
qed

section \<open>Loading a configuration\<close>

lemma readFile_exists: "readFile cwd fs p = Inr c \<Longrightarrow> pathExists cwd fs p"
  by (auto simp: readFile_def pathExists_def split: option.splits node.splits)

lemma loadConfig_no_file:
  assumes "ensureConfigDir s fs (Some (getConfigPath s customPath)) = Inr fs1"
    and "\<not> pathExists (process_cwd s) fs1 (getConfigPath s customPath)"
  shows "loadConfig s JSON_parse st fs customPath = (Inr (loaded_of DEFAULT_CONFIG), st, fs1)"
  using assms by (simp add: loadConfig_def Let_def)

lemma loadConfig_parsed_object:
  assumes "ensureConfigDir s fs (Some (getConfigPath s customPath)) = Inr fs1"
    and "readFile (process_cwd s) fs1 (getConfigPath s customPath) = Inr content"
    and "JSON_parse content = Inr (ParsedObject r)"
  shows "loadConfig s JSON_parse st fs customPath
         = (Inr (fst (load_parsed st r)), snd (load_parsed st r), fs1)"
  using assms readFile_exists[OF assms(2)] by (simp add: loadConfig_def Let_def)

lemma load_parsed_fields:
  "loaded_version (fst (load_parsed st r)) = (if truthy (raw_version r) then raw_version r else SCHEMA_VERSION)"
  "loaded_defaults (fst (load_parsed st r)) = raw_defaults r"
  "loaded_databases (fst (load_parsed st r)) = map_option (\<lambda>_. fresh st) (raw_databases r)"
  by (simp_all add: load_parsed_def SCHEMA_VERSION_def Let_def split: option.splits)

lemma load_parsed_targets:
  "raw_databases r = Some ds \<Longrightarrow> arrays (snd (load_parsed st r)) (fresh st) = ds"
  by (simp add: load_parsed_def Let_def)

definition dq :: string where
  \<comment> \<open>the double quote of JSON texts\<close>
  "dq = [CHR 0x22]"

definition json_without_version :: string where
  \<comment> \<open>the text of an object with the one key \<^verbatim>\<open>databases\<close>, an empty array\<close>
  "json_without_version = ''{'' @ dq @ ''databases'' @ dq @ '':[]}''"

definition json_version_2 :: string where
  \<comment> \<open>the text of an object with \<^verbatim>\<open>version\<close> 2 and \<^verbatim>\<open>databases\<close>, an empty array\<close>
  "json_version_2 = ''{'' @ dq @ ''version'' @ dq @ '':2,'' @ dq @ ''databases'' @ dq @ '':[]}''"

definition sample_JSON_parse :: "string \<Rightarrow> error + parsed" where
  \<comment> \<open>\<^verbatim>\<open>JSON.parse\<close> on the two sample texts\<close>
  "sample_JSON_parse content =
     (if content = json_without_version then
        Inr (ParsedObject \<lparr>raw_version = JUndefined, raw_databases = Some [], raw_defaults = None\<rparr>)
      else if content = json_version_2 then
        Inr (ParsedObject \<lparr>raw_version = JNum 2, raw_databases = Some [], raw_defaults = None\<rparr>)
      else Inl (SyntaxError ''Unexpected token''))"

definition config_fs :: "string \<Rightarrow> node" where
  \<comment> \<open>a file system whose only file is \<^verbatim>\<open>/c/config.json\<close>, with the given content\<close>
  "config_fs content = Dir [(''c'', Dir [(''config.json'', File content 420)])]"

definition no_config_fs :: node where
  \<comment> \<open>a file system with the empty directory \<^verbatim>\<open>/c\<close>\<close>
  "no_config_fs = Dir [(''c'', Dir [])]"

lemma sample_config_dirname: "path_dirname ''/c/config.json'' = ''/c''"
  using path_dirname_abs[of "[''c'']" "''config.json''"]
  by (simp add: abs_path_of_def clean_segment_def)

lemma sample_config_paths:
  "fs_path ''/'' ''/c'' = [''c'']"
  "fs_path ''/'' ''/c/config.json'' = [''c'', ''config.json'']"
  using fs_path_abs[of "[''c'']" "''/''"] fs_path_abs[of "[''c'', ''config.json'']" "''/''"]
  by (simp_all add: abs_path_of_def clean_segment_def)

lemma sample_config_dir:
  "ensureConfigDir sample_sys (config_fs content) (Some (getConfigPath sample_sys (Some ''/c/config.json'')))
   = Inr (config_fs content)"
  by (simp add: ensureConfigDir_def getConfigPath_def truthy_str_def sample_sys_simps
      sample_config_dirname ensureDir_def sample_config_paths config_fs_def)

lemma sample_config_read:
  "readFile (process_cwd sample_sys) (config_fs content) (getConfigPath sample_sys (Some ''/c/config.json''))
   = Inr content"
  by (simp add: readFile_def getConfigPath_def truthy_str_def sample_sys_simps
      sample_config_paths config_fs_def)

lemma no_config_dir:
  "ensureConfigDir sample_sys no_config_fs (Some (getConfigPath sample_sys (Some ''/c/config.json'')))
   = Inr no_config_fs"
  by (simp add: ensureConfigDir_def getConfigPath_def truthy_str_def sample_sys_simps
      sample_config_dirname ensureDir_def sample_config_paths no_config_fs_def)

lemma no_config_absent:
  "\<not> pathExists (process_cwd sample_sys) no_config_fs (getConfigPath sample_sys (Some ''/c/config.json''))"
  by (simp add: pathExists_def getConfigPath_def truthy_str_def sample_sys_simps
      sample_config_paths no_config_fs_def)

lemma json_texts_differ: "json_version_2 \<noteq> json_without_version"
  by (simp add: json_version_2_def json_without_version_def dq_def)

text \<open>
  Claim C3, as the code has it by design.  When the directory of the configuration path
  exists or can be created: if no file is at the path, \<^verbatim>\<open>loadConfig\<close> returns a copy of the
  default structure, whose version is the schema version; if the file parses as a JSON
  object, \<^verbatim>\<open>loadConfig\<close> returns that object, with its defaults and with its targets when it
  has a target list, and sets the version to 1 only when the version on disk is missing or
  falsy: a truthy version on disk is kept as it is.
\<close>

theorem loadConfig_version:
  "ensureConfigDir s fs (Some (getConfigPath s customPath)) = Inr fs1 \<longrightarrow>
     (\<not> pathExists (process_cwd s) fs1 (getConfigPath s customPath) \<longrightarrow>
        fst (loadConfig s JSON_parse st fs customPath) = Inr (loaded_of DEFAULT_CONFIG)
        \<and> loaded_version (loaded_of DEFAULT_CONFIG) = SCHEMA_VERSION)
     \<and> (readFile (process_cwd s) fs1 (getConfigPath s customPath) = Inr content
          \<and> JSON_parse content = Inr (ParsedObject r) \<longrightarrow>
        fst (loadConfig s JSON_parse st fs customPath)
          = Inr \<lparr>loaded_version = (if truthy (raw_version r) then raw_version r else SCHEMA_VERSION),
                  loaded_databases = map_option (\<lambda>_. fresh st) (raw_databases r),
                  loaded_defaults = raw_defaults r\<rparr>
        \<and> (\<forall>ds. raw_databases r = Some ds \<longrightarrow>
               arrays (fst (snd (loadConfig s JSON_parse st fs customPath))) (fresh st) = ds))"
proof (intro impI conjI allI)
  assume dir: "ensureConfigDir s fs (Some (getConfigPath s customPath)) = Inr fs1"
  {
    assume "\<not> pathExists (process_cwd s) fs1 (getConfigPath s customPath)"
    from loadConfig_no_file[OF dir this]
    show "fst (loadConfig s JSON_parse st fs customPath) = Inr (loaded_of DEFAULT_CONFIG)" by simp
    show "loaded_version (loaded_of DEFAULT_CONFIG) = SCHEMA_VERSION"
      by (simp add: loaded_of_def DEFAULT_CONFIG_def)
  }
  assume "readFile (process_cwd s) fs1 (getConfigPath s customPath) = Inr content
          \<and> JSON_parse content = Inr (ParsedObject r)"
  then have eq: "loadConfig s JSON_parse st fs customPath
                 = (Inr (fst (load_parsed st r)), snd (load_parsed st r), fs1)"
    using loadConfig_parsed_object[OF dir] by simp
  have "fst (load_parsed st r)
        = \<lparr>loaded_version = (if truthy (raw_version r) then raw_version r else SCHEMA_VERSION),
           loaded_databases = map_option (\<lambda>_. fresh st) (raw_databases r),
           loaded_defaults = raw_defaults r\<rparr>"
    by (simp add: load_parsed_def SCHEMA_VERSION_def Let_def split: option.splits)
  with eq show "fst (loadConfig s JSON_parse st fs customPath)
          = Inr \<lparr>loaded_version = (if truthy (raw_version r) then raw_version r else SCHEMA_VERSION),
                  loaded_databases = map_option (\<lambda>_. fresh st) (raw_databases r),
                  loaded_defaults = raw_defaults r\<rparr>" by simp
  fix ds
  assume "raw_databases r = Some ds"
  with eq show "arrays (fst (snd (loadConfig s JSON_parse st fs customPath))) (fresh st) = ds"
    by (simp add: load_parsed_targets)
qed

theorem loadConfig_version_witness:
  "fst (loadConfig sample_sys sample_JSON_parse initial_store (config_fs json_without_version)
          (Some ''/c/config.json''))
   = Inr \<lparr>loaded_version = SCHEMA_VERSION, loaded_databases = Some 1, loaded_defaults = None\<rparr>
   \<and> fst (loadConfig sample_sys sample_JSON_parse initial_store no_config_fs (Some ''/c/config.json''))
   = Inr (loaded_of DEFAULT_CONFIG)"
  using loadConfig_version[of sample_sys "config_fs json_without_version" "Some ''/c/config.json''"
      "config_fs json_without_version" sample_JSON_parse initial_store json_without_version
      "\<lparr>raw_version = JUndefined, raw_databases = Some [], raw_defaults = None\<rparr>"]
    loadConfig_version[of sample_sys no_config_fs "Some ''/c/config.json''" no_config_fs
      sample_JSON_parse initial_store]
    sample_config_dir sample_config_read no_config_dir no_config_absent
  by (simp add: initial_store_def sample_JSON_parse_def)

text \<open>
  The claim as it is written fails in both halves.  A file that carries the newer version
  2 is returned with the version 2, not with the schema version 1.  And a load from a path
  with no file returns a list with one target, once an entry has been upserted into the
  structure that an earlier such load returned: the two structures share the array of
  \<^verbatim>\<open>DEFAULT_CONFIG\<close>.
\<close>

theorem loadConfig_version_counterexample:
  "fst (loadConfig sample_sys sample_JSON_parse initial_store (config_fs json_version_2)
          (Some ''/c/config.json''))
   = Inr \<lparr>loaded_version = JNum 2, loaded_databases = Some 1, loaded_defaults = None\<rparr>
   \<and> JNum 2 \<noteq> SCHEMA_VERSION
   \<and> fst (loadConfig sample_sys sample_JSON_parse initial_store no_config_fs (Some ''/c/config.json''))
     = Inr (loaded_of DEFAULT_CONFIG)
   \<and> config_of (loaded_of DEFAULT_CONFIG) = Some DEFAULT_CONFIG
   \<and> fst (loadConfig sample_sys sample_JSON_parse
            (snd (upsertDatabase initial_store DEFAULT_CONFIG (sample_entry ''a'' ''h1'')))
            no_config_fs (Some ''/c/config.json''))
     = Inr (loaded_of DEFAULT_CONFIG)
   \<and> arrays (snd (upsertDatabase initial_store DEFAULT_CONFIG (sample_entry ''a'' ''h1'')))
        (databases DEFAULT_CONFIG)
     = [sample_entry ''a'' ''h1'']"
proof -
  have v2: "sample_JSON_parse json_version_2
            = Inr (ParsedObject \<lparr>raw_version = JNum 2, raw_databases = Some [], raw_defaults = None\<rparr>)"
    by (simp add: sample_JSON_parse_def json_texts_differ)
  have 1: "fst (loadConfig sample_sys sample_JSON_parse initial_store (config_fs json_version_2)
                 (Some ''/c/config.json''))
           = Inr \<lparr>loaded_version = JNum 2, loaded_databases = Some 1, loaded_defaults = None\<rparr>"
    using loadConfig_parsed_object[of sample_sys "config_fs json_version_2" "Some ''/c/config.json''"
        "config_fs json_version_2" json_version_2 sample_JSON_parse _ initial_store]
      sample_config_dir[of json_version_2] sample_config_read[of json_version_2] v2
    by (simp add: load_parsed_def initial_store_def Let_def)
  have 2: "JNum 2 \<noteq> SCHEMA_VERSION" by (simp add: SCHEMA_VERSION_def)
  have 3: "fst (loadConfig sample_sys sample_JSON_parse st no_config_fs (Some ''/c/config.json''))
           = Inr (loaded_of DEFAULT_CONFIG)" for st
    using loadConfig_no_file[OF no_config_dir no_config_absent, of sample_JSON_parse st] by simp
  have 4: "config_of (loaded_of DEFAULT_CONFIG) = Some DEFAULT_CONFIG"
    by (simp add: config_of_def loaded_of_def)
  have 5: "arrays (snd (upsertDatabase initial_store DEFAULT_CONFIG (sample_entry ''a'' ''h1'')))
             (databases DEFAULT_CONFIG) = [sample_entry ''a'' ''h1'']"
    by (simp add: upsertDatabase_def initial_store_def DEFAULT_CONFIG_def Let_def)
  from 1 2 3 4 5 show ?thesis by simp
qed

section \<open>Redirects\<close>

definition redirect_target :: "net \<Rightarrow> string \<Rightarrow> string option" where
  \<comment> \<open>where a request for the URL is redirected to: its response is a redirect whose
     \<^verbatim>\<open>Location\<close> \<^verbatim>\<open>new URL\<close> accepts\<close>
  "redirect_target n u =
     (case https_get n u of
        Reply res \<Rightarrow> (case redirect_location res of None \<Rightarrow> None | Some loc \<Rightarrow> resolve_url n loc u)
      | _ \<Rightarrow> None)"

definition final_target :: "net \<Rightarrow> string \<Rightarrow> bool" where
  \<comment> \<open>\<^verbatim>\<open>https.get\<close> takes the URL, and what comes back is not a redirect\<close>
  "final_target n u =
     (case https_get n u of
        GetThrows _ \<Rightarrow> False
      | NetError _ \<Rightarrow> True
      | Reply res \<Rightarrow> redirect_location res = None)"

fun follow :: "net \<Rightarrow> nat \<Rightarrow> string \<Rightarrow> string option" where
  \<comment> \<open>the URL reached from \<open>u\<close> by a chain of \<open>k\<close> redirects, if there is such a chain\<close>
  "follow n 0 u = Some u"
| "follow n (Suc k) u = (case redirect_target n u of None \<Rightarrow> None | Some u' \<Rightarrow> follow n k u')"

lemma request_redirect:
  "redirect_target n u = Some u' \<Longrightarrow> r < MAX_REDIRECTS \<Longrightarrow> request n u r = request n u' (r + 1)"
  by (subst request.simps)
     (auto simp: redirect_target_def split: reply.splits option.splits)

lemma request_redirect_limit:
  "redirect_target n u = Some u' \<Longrightarrow> MAX_REDIRECTS \<le> r
   \<Longrightarrow> request n u r = Raises (Error ''Too many redirects'')"
  by (subst request.simps)
     (auto simp: redirect_target_def split: reply.splits option.splits)

lemma request_final:
  "final_target n u \<Longrightarrow> request n u r = request n u 0"
  by (subst request.simps, subst (2) request.simps)
     (auto simp: final_target_def split: reply.splits option.splits)

lemma request_throws:
  "https_get n u = GetThrows e \<Longrightarrow> 0 < r \<Longrightarrow> request n u r = Hangs e"
  by (subst request.simps) simp

lemma request_unresolved:
  "https_get n u = Reply res \<Longrightarrow> redirect_location res = Some loc \<Longrightarrow> resolve_url n loc u = None
   \<Longrightarrow> r < MAX_REDIRECTS \<Longrightarrow> request n u r = Hangs (TypeError ''Invalid URL'')"
  by (subst request.simps) simp

lemma request_follow:
  "follow n k u = Some u' \<Longrightarrow> r + k \<le> MAX_REDIRECTS \<Longrightarrow> request n u r = request n u' (r + k)"
proof (induction k arbitrary: u r)
  case 0
  then show ?case by simp
next
  case (Suc k)
  from Suc.prems(1) obtain v where v: "redirect_target n u = Some v" "follow n k v = Some u'"
    by (auto split: option.splits)
  from Suc.prems(2) have "r < MAX_REDIRECTS" "(r + 1) + k \<le> MAX_REDIRECTS" by auto
  with request_redirect[OF v(1)] Suc.IH[OF v(2), of "r + 1"] show ?case by simp
qed

lemma follow_add:
  "follow n (a + b) u = (case follow n a u of None \<Rightarrow> None | Some v \<Rightarrow> follow n b v)"
  by (induction a arbitrary: u) (auto split: option.splits)

lemma request_too_many:
  assumes "follow n k u = Some u'" "MAX_REDIRECTS < k"
  shows "request n u 0 = Raises (Error ''Too many redirects'')"
proof -
  from assms(2) obtain b where k: "k = MAX_REDIRECTS + Suc b"
    by (metis add_Suc_right less_iff_Suc_add)
  from assms(1) have c: "(case follow n MAX_REDIRECTS u of None \<Rightarrow> None | Some v \<Rightarrow> follow n (Suc b) v) = Some u'"
    by (simp only: k follow_add)
  then obtain v where v: "follow n MAX_REDIRECTS u = Some v"
    by (cases "follow n MAX_REDIRECTS u") simp_all
  with c have "follow n (Suc b) v = Some u'" by (simp only: option.case)
  then obtain w where w: "redirect_target n v = Some w" by (auto split: option.splits)
  from request_follow[OF v, of 0] have "request n u 0 = request n v MAX_REDIRECTS" by simp
  with request_redirect_limit[OF w, of MAX_REDIRECTS] show ?thesis by simp
qed

lemma downloadToFile_cong_request:
  "request n u 0 = request n u' 0 \<Longrightarrow> valid_url n u \<Longrightarrow> valid_url n u'
   \<Longrightarrow> downloadToFile cwd n fs u dest = downloadToFile cwd n fs u' dest"
  by (simp add: downloadToFile_def split: sum.splits)

text \<open>
  The bound of the fetcher.  A chain of at most five redirects, each to a URL that
  \<^verbatim>\<open>https.get\<close> takes, is followed: the request gives what a direct request to the final
  target gives.  A chain of six redirects (or more) fails with the error "Too many
  redirects".
\<close>

lemma redirects_followed:
  assumes "follow n k u = Some u'" "k \<le> 5" "final_target n u'"
  shows "request n u 0 = request n u' 0"
proof -
  from assms(1,2) have "request n u 0 = request n u' k"
    using request_follow[of n k u u' 0] by (simp add: MAX_REDIRECTS_def)
  also have "\<dots> = request n u' 0" using assms(3) by (rule request_final)
  finally show ?thesis .
qed

lemma redirects_refused:
  assumes "follow n k u = Some u'" "6 \<le> k"
  shows "request n u 0 = Raises (Error ''Too many redirects'')"
  using request_too_many[OF assms(1)] assms(2) by (simp add: MAX_REDIRECTS_def)

definition sample_net :: net where
  \<comment> \<open>\<^verbatim>\<open>https://h/a\<close> redirects to \<^verbatim>\<open>https://h/b\<close>, that to \<^verbatim>\<open>https://h/c\<close>, which answers 200
     with a body; \<^verbatim>\<open>https://h/m\<close> redirects to \<^verbatim>\<open>http://m/c\<close>, which \<^verbatim>\<open>https.get\<close> refuses;
     \<^verbatim>\<open>https://h/l\<close> redirects to itself\<close>
  "sample_net =
     \<lparr>https_get = (\<lambda>u. if u = ''https://h/a'' then
                          Reply \<lparr>statusCode = Some 302, location = Some ''https://h/b'', body = []\<rparr>
                        else if u = ''https://h/b'' then
                          Reply \<lparr>statusCode = Some 301, location = Some ''https://h/c'', body = []\<rparr>
                        else if u = ''https://h/c'' then
                          Reply \<lparr>statusCode = Some 200, location = None, body = ''DATA''\<rparr>
                        else if u = ''https://h/m'' then
                          Reply \<lparr>statusCode = Some 302, location = Some ''http://m/c'', body = []\<rparr>
                        else if u = ''https://h/l'' then
                          Reply \<lparr>statusCode = Some 302, location = Some ''https://h/l'', body = []\<rparr>
                        else if startsWith u ''https:'' then NetError ''getaddrinfo ENOTFOUND''
                        else GetThrows (TypeError ''ERR_INVALID_PROTOCOL'')),
      valid_url = (\<lambda>u. startsWith u ''https:'' \<or> startsWith u ''http:''),
      resolve_url = (\<lambda>loc base. if startsWith loc ''https:'' \<or> startsWith loc ''http:'' then Some loc
                                  else None)\<rparr>"

lemma sample_net_simps:
  "https_get sample_net ''https://h/a'' = Reply \<lparr>statusCode = Some 302, location = Some ''https://h/b'', body = []\<rparr>"
  "https_get sample_net ''https://h/b'' = Reply \<lparr>statusCode = Some 301, location = Some ''https://h/c'', body = []\<rparr>"
  "https_get sample_net ''https://h/c'' = Reply \<lparr>statusCode = Some 200, location = None, body = ''DATA''\<rparr>"
  "https_get sample_net ''https://h/m'' = Reply \<lparr>statusCode = Some 302, location = Some ''http://m/c'', body = []\<rparr>"
  "https_get sample_net ''https://h/l'' = Reply \<lparr>statusCode = Some 302, location = Some ''https://h/l'', body = []\<rparr>"
  "https_get sample_net ''http://m/c'' = GetThrows (TypeError ''ERR_INVALID_PROTOCOL'')"
  "resolve_url sample_net ''https://h/b'' b = Some ''https://h/b''"
  "resolve_url sample_net ''https://h/c'' b = Some ''https://h/c''"
  "resolve_url sample_net ''https://h/l'' b = Some ''https://h/l''"
  "resolve_url sample_net ''http://m/c'' b = Some ''http://m/c''"
  "valid_url sample_net ''https://h/m''"
  by (simp_all add: sample_net_def startsWith_def)

lemma sample_net_targets:
  "redirect_target sample_net ''https://h/a'' = Some ''https://h/b''"
  "redirect_target sample_net ''https://h/b'' = Some ''https://h/c''"
  "redirect_target sample_net ''https://h/m'' = Some ''http://m/c''"
  "redirect_target sample_net ''https://h/l'' = Some ''https://h/l''"
  "final_target sample_net ''https://h/c''"
  by (simp_all add: redirect_target_def final_target_def redirect_location_def truthy_str_def
      sample_net_simps)

lemma sample_net_followed:
  "request sample_net ''https://h/a'' 0 = Returns \<lparr>statusCode = Some 200, location = None, body = ''DATA''\<rparr>"
proof -
  have "follow sample_net 2 ''https://h/a'' = Some ''https://h/c''"
    by (simp add: eval_nat_numeral sample_net_targets)
  from redirects_followed[OF this _ sample_net_targets(5)]
  have "request sample_net ''https://h/a'' 0 = request sample_net ''https://h/c'' 0" by simp
  also have "\<dots> = Returns \<lparr>statusCode = Some 200, location = None, body = ''DATA''\<rparr>"
    by (subst request.simps) (simp add: sample_net_simps redirect_location_def truthy_num_def)
  finally show ?thesis .
qed

lemma sample_net_refused:
  "request sample_net ''https://h/l'' 0 = Raises (Error ''Too many redirects'')"
proof -
  have "follow sample_net 6 ''https://h/l'' = Some ''https://h/l''"
    by (simp add: eval_nat_numeral sample_net_targets)
  from redirects_refused[OF this] show ?thesis by simp
qed

lemma sample_download_dir:
  "ensureDir ''/'' (Dir []) (path_dirname ''/t/x.tgz'') = Inr (Dir [(''t'', Dir [])])"
proof -
  have d: "path_dirname ''/t/x.tgz'' = ''/t''"
    using path_dirname_abs[of "[''t'']" "''x.tgz''"] by (simp add: abs_path_of_def clean_segment_def)
  have p: "fs_path ''/'' ''/t'' = [''t'']"
    using fs_path_abs[of "[''t'']" "''/''"] by (simp add: abs_path_of_def clean_segment_def)
  show ?thesis by (simp add: d ensureDir_def p)
qed

text \<open>
  Claim C6, where the code breaks it.  When a redirect within the bound leads to a URL for
  which \<^verbatim>\<open>https.get\<close> throws (its protocol is not \<^verbatim>\<open>https:\<close>), or has a \<^verbatim>\<open>Location\<close> that
  \<^verbatim>\<open>new URL\<close> refuses, the exception is raised inside the response callback: the redirect is
  not followed, and the promise of \<^verbatim>\<open>downloadToFile\<close> is neither resolved nor rejected.
\<close>

theorem redirect_never_settles:
  "(follow n k u = Some u' \<and> k < 5 \<and> redirect_target n u' = Some v \<and> https_get n v = GetThrows e \<longrightarrow>
      request n u 0 = Hangs e
      \<and> (valid_url n u \<and> ensureDir cwd fs (path_dirname dest) = Inr fs1 \<longrightarrow>
           downloadToFile cwd n fs u dest = (Hangs e, fs1)))
   \<and> (follow n k u = Some u' \<and> k < 5 \<and> https_get n u' = Reply res
        \<and> redirect_location res = Some loc \<and> resolve_url n loc u' = None \<longrightarrow>
      request n u 0 = Hangs (TypeError ''Invalid URL'')
      \<and> (valid_url n u \<and> ensureDir cwd fs (path_dirname dest) = Inr fs1 \<longrightarrow>
           downloadToFile cwd n fs u dest = (Hangs (TypeError ''Invalid URL''), fs1)))"
proof (intro conjI impI)
  assume a: "follow n k u = Some u' \<and> k < 5 \<and> redirect_target n u' = Some v \<and> https_get n v = GetThrows e"
  then have "request n u 0 = request n u' k"
    using request_follow[of n k u u' 0] by (simp add: MAX_REDIRECTS_def)
  also from a have "\<dots> = request n v (k + 1)"
    by (intro request_redirect) (simp_all add: MAX_REDIRECTS_def)
  also from a have "\<dots> = Hangs e" by (intro request_throws) simp_all
  finally show r: "request n u 0 = Hangs e" .
  assume "valid_url n u \<and> ensureDir cwd fs (path_dirname dest) = Inr fs1"
  with r show "downloadToFile cwd n fs u dest = (Hangs e, fs1)"
    by (simp add: downloadToFile_def)
next
  assume a: "follow n k u = Some u' \<and> k < 5 \<and> https_get n u' = Reply res
        \<and> redirect_location res = Some loc \<and> resolve_url n loc u' = None"
  then have "request n u 0 = request n u' k"
    using request_follow[of n k u u' 0] by (simp add: MAX_REDIRECTS_def)
  also from a have "\<dots> = Hangs (TypeError ''Invalid URL'')"
    by (intro request_unresolved[of n u' res loc]) (simp_all add: MAX_REDIRECTS_def)
  finally show r: "request n u 0 = Hangs (TypeError ''Invalid URL'')" .
  assume "valid_url n u \<and> ensureDir cwd fs (path_dirname dest) = Inr fs1"
  with r show "downloadToFile cwd n fs u dest = (Hangs (TypeError ''Invalid URL''), fs1)"
    by (simp add: downloadToFile_def)
qed

theorem redirect_never_settles_witness:
  "request sample_net ''https://h/m'' 0 = Hangs (TypeError ''ERR_INVALID_PROTOCOL'')
   \<and> downloadToFile ''/'' sample_net (Dir []) ''https://h/m'' ''/t/x.tgz''
     = (Hangs (TypeError ''ERR_INVALID_PROTOCOL''), Dir [(''t'', Dir [])])"
  using redirect_never_settles[of sample_net 0 "''https://h/m''" "''https://h/m''" "''http://m/c''"
      "TypeError ''ERR_INVALID_PROTOCOL''" "''/''" "Dir []" "''/t/x.tgz''" "Dir [(''t'', Dir [])]"]
    sample_net_targets(3) sample_net_simps(6,11) sample_download_dir
  by simp

section \<open>Properties of connectionTester.ts\<close>

lemma settle_settled: "p \<noteq> Pending \<Longrightarrow> settle q p = p"
  by (cases p) (simp_all add: settle_def)

lemma settle_Pending: "settle q Pending = q"
  by (simp add: settle_def)

lemma probe_on_settled:
  "probe_result st \<noteq> Pending \<Longrightarrow> probe_result (probe_on st ev) = probe_result st"
  by (cases ev) (simp_all add: probe_on_def settle_settled)

lemma probe_fold_settled:
  "probe_result st \<noteq> Pending \<Longrightarrow> probe_result (foldl probe_on st evs) = probe_result st"
  by (induction evs arbitrary: st) (simp_all add: probe_on_settled)

lemma probe_on_not_rejected:
  "\<forall>e. probe_result st \<noteq> Rejected e \<Longrightarrow> probe_result (probe_on st ev) \<noteq> Rejected e"
  by (cases ev; cases "probe_result st") (simp_all add: probe_on_def settle_def)

lemma probe_fold_not_rejected:
  "\<forall>e. probe_result st \<noteq> Rejected e \<Longrightarrow> probe_result (foldl probe_on st evs) \<noteq> Rejected e"
proof (induction evs arbitrary: st)
  case Nil
  then show ?case by simp
next
  case (Cons ev evs)
  have "\<forall>e. probe_result (probe_on st ev) \<noteq> Rejected e"
    using probe_on_not_rejected[OF Cons.prems] by simp
  from Cons.IH[OF this] show ?case by simp
qed

lemma probe_fold_quiet:
  "list_all (\<lambda>ev. \<not> is_child_end ev) pre
   \<Longrightarrow> foldl probe_on st pre = st\<lparr>probe_stderr := probe_stderr st @ captured_stderr pre\<rparr>"
proof (induction pre arbitrary: st)
  case Nil
  then show ?case by (simp add: captured_stderr_def)
next
  case (Cons ev pre)
  then show ?case
    by (cases ev) (simp_all add: probe_on_def captured_stderr_def is_child_end_def)
qed

lemma probe_exit_first:
  assumes "list_all (\<lambda>ev. \<not> is_child_end ev) pre"
  shows "probe_result (foldl probe_on \<lparr>probe_stderr = [], probe_result = Pending\<rparr> (pre @ ChildExit code # post))
         = Fulfilled (if code = Some 0 then \<lparr>ok = True, message = None, error' = None\<rparr>
                      else \<lparr>ok = False,
                            message = Some (if trim (captured_stderr pre) \<noteq> [] then trim (captured_stderr pre)
                                            else ''mysqldump exited with code '' @ show_opt_nat code ''null''),
                            error' = None\<rparr>)"
proof -
  let ?st = "\<lparr>probe_stderr = captured_stderr pre, probe_result = Pending\<rparr>"
  have 1: "foldl probe_on \<lparr>probe_stderr = [], probe_result = Pending\<rparr> pre = ?st"
    by (simp add: probe_fold_quiet[OF assms])
  have 2: "probe_result (probe_on ?st (ChildExit code))
           = Fulfilled (if code = Some 0 then \<lparr>ok = True, message = None, error' = None\<rparr>
                      else \<lparr>ok = False,
                            message = Some (if trim (captured_stderr pre) \<noteq> [] then trim (captured_stderr pre)
                                            else ''mysqldump exited with code '' @ show_opt_nat code ''null''),
                            error' = None\<rparr>)"
    by (simp add: probe_on_def settle_Pending)
  have 3: "probe_result (foldl probe_on (probe_on ?st (ChildExit code)) post)
           = probe_result (probe_on ?st (ChildExit code))"
    by (rule probe_fold_settled) (simp only: 2 promise.distinct simp_thms)
  show ?thesis
    unfolding foldl_append foldl_Cons 1 3 2 ..
qed

lemma probe_error_first:
  assumes "list_all (\<lambda>ev. \<not> is_child_end ev) pre"
  shows "probe_result (foldl probe_on \<lparr>probe_stderr = [], probe_result = Pending\<rparr> (pre @ ChildError m # post))
         = Fulfilled \<lparr>ok = False, message = Some m, error' = Some (Error m)\<rparr>"
proof -
  let ?st = "\<lparr>probe_stderr = captured_stderr pre, probe_result = Pending\<rparr>"
  have 1: "foldl probe_on \<lparr>probe_stderr = [], probe_result = Pending\<rparr> pre = ?st"
    by (simp add: probe_fold_quiet[OF assms])
  have 2: "probe_result (probe_on ?st (ChildError m))
           = Fulfilled \<lparr>ok = False, message = Some m, error' = Some (Error m)\<rparr>"
    by (simp add: probe_on_def settle_Pending)
  have 3: "probe_result (foldl probe_on (probe_on ?st (ChildError m)) post)
           = probe_result (probe_on ?st (ChildError m))"
    by (rule probe_fold_settled) (simp only: 2 promise.distinct simp_thms)
  show ?thesis
    unfolding foldl_append foldl_Cons 1 3 2 ..
qed

text \<open>
  What the listeners of \<^verbatim>\<open>testConnection\<close> do once the child process is started: no event
  rejects the promise, and the first event that ends the child fixes the result.
\<close>

lemma testConnection_started:
  assumes "spawn rt (binaryPath req) (probe_args rt req) (password req) = Inr events"
  shows "testConnection rt req \<noteq> Rejected e"
    and "events = pre @ ChildExit code # post \<Longrightarrow> list_all (\<lambda>ev. \<not> is_child_end ev) pre
         \<Longrightarrow> testConnection rt req
             = Fulfilled (if code = Some 0 then \<lparr>ok = True, message = None, error' = None\<rparr>
                          else \<lparr>ok = False,
                                message = Some (if trim (captured_stderr pre) \<noteq> [] then trim (captured_stderr pre)
                                                else ''mysqldump exited with code '' @ show_opt_nat code ''null''),
                                error' = None\<rparr>)"
    and "events = pre @ ChildError m # post \<Longrightarrow> list_all (\<lambda>ev. \<not> is_child_end ev) pre
         \<Longrightarrow> testConnection rt req = Fulfilled \<lparr>ok = False, message = Some m, error' = Some (Error m)\<rparr>"
proof -
  have eq: "testConnection rt req
            = probe_result (foldl probe_on \<lparr>probe_stderr = [], probe_result = Pending\<rparr> events)"
    using assms by (simp add: testConnection_def)
  show "testConnection rt req \<noteq> Rejected e"
    unfolding eq by (rule probe_fold_not_rejected) simp
  show "testConnection rt req
             = Fulfilled (if code = Some 0 then \<lparr>ok = True, message = None, error' = None\<rparr>
                          else \<lparr>ok = False,
                                message = Some (if trim (captured_stderr pre) \<noteq> [] then trim (captured_stderr pre)
                                                else ''mysqldump exited with code '' @ show_opt_nat code ''null''),
                                error' = None\<rparr>)"
    if "events = pre @ ChildExit code # post" "list_all (\<lambda>ev. \<not> is_child_end ev) pre"
    unfolding eq using that by (simp only: probe_exit_first)
  show "testConnection rt req = Fulfilled \<lparr>ok = False, message = Some m, error' = Some (Error m)\<rparr>"
    if "events = pre @ ChildError m # post" "list_all (\<lambda>ev. \<not> is_child_end ev) pre"
    unfolding eq using that by (simp only: probe_error_first)
qed

lemma probe_args_host: "''--host='' @ host (db req) \<in> set (probe_args rt req)"
  by (simp add: probe_args_def)

text \<open>
  Claim C9, where the code breaks it.  \<^verbatim>\<open>spawn\<close> is called inside the promise executor
  with no \<^verbatim>\<open>try\<close> around it.  When \<^verbatim>\<open>spawn\<close> throws, as it does for an empty path of the
  executable, for a NUL character in the path, in the host or in another argument, and
  when the operating system refuses the process with an error that \<^verbatim>\<open>spawn\<close> does not turn
  into an \<^verbatim>\<open>error\<close> event, the promise of \<^verbatim>\<open>testConnection\<close> is rejected with that exception:
  the failure of the spawn is raised, not returned as \<^verbatim>\<open>{ok: false, message}\<close>.
\<close>

theorem testConnection_rejects:
  "(binaryPath req = [] \<longrightarrow>
      testConnection rt req
      = Rejected (TypeError ''ERR_INVALID_ARG_VALUE: the argument file cannot be empty''))
   \<and> (binaryPath req \<noteq> [] \<and> CHR 0x00 \<in> set (host (db req)) \<longrightarrow>
      testConnection rt req
      = Rejected (TypeError ''ERR_INVALID_ARG_VALUE: must be a string without null bytes''))
   \<and> (spawn_argument_error (binaryPath req) (probe_args rt req) (password req) = None
        \<and> os_spawn rt (binaryPath req) (probe_args rt req) (password req) = Inl e \<longrightarrow>
      testConnection rt req = Rejected e)"
proof (intro conjI impI)
  assume "binaryPath req = []"
  then show "testConnection rt req
      = Rejected (TypeError ''ERR_INVALID_ARG_VALUE: the argument file cannot be empty'')"
    by (simp add: testConnection_def spawn_def spawn_argument_error_def)
next
  assume a: "binaryPath req \<noteq> [] \<and> CHR 0x00 \<in> set (host (db req))"
  then have "list_ex (\<lambda>a. CHR 0x00 \<in> set a) (probe_args rt req)"
    unfolding list_ex_iff using probe_args_host[of req rt] by (intro bexI[of _ "''--host='' @ host (db req)"]) simp_all
  with a show "testConnection rt req
      = Rejected (TypeError ''ERR_INVALID_ARG_VALUE: must be a string without null bytes'')"
    by (simp add: testConnection_def spawn_def spawn_argument_error_def)
next
  assume "spawn_argument_error (binaryPath req) (probe_args rt req) (password req) = None
        \<and> os_spawn rt (binaryPath req) (probe_args rt req) (password req) = Inl e"
  then show "testConnection rt req = Rejected e"
    by (simp add: testConnection_def spawn_def)
qed

theorem testConnection_rejects_witness:
  "(\<forall>rt. testConnection rt (sample_request\<lparr>binaryPath := []\<rparr>)
         = Rejected (TypeError ''ERR_INVALID_ARG_VALUE: the argument file cannot be empty''))
   \<and> (\<forall>rt. testConnection rt (sample_request\<lparr>db := (db sample_request)\<lparr>host := ''db'' @ [CHR 0x00]\<rparr>\<rparr>)
         = Rejected (TypeError ''ERR_INVALID_ARG_VALUE: must be a string without null bytes''))"
proof (intro conjI allI)
  fix rt
  show "testConnection rt (sample_request\<lparr>binaryPath := []\<rparr>)
         = Rejected (TypeError ''ERR_INVALID_ARG_VALUE: the argument file cannot be empty'')"
    using testConnection_rejects[of "sample_request\<lparr>binaryPath := []\<rparr>" rt] by simp
  show "testConnection rt (sample_request\<lparr>db := (db sample_request)\<lparr>host := ''db'' @ [CHR 0x00]\<rparr>\<rparr>)
         = Rejected (TypeError ''ERR_INVALID_ARG_VALUE: must be a string without null bytes'')"
    using testConnection_rejects[of "sample_request\<lparr>db := (db sample_request)\<lparr>host := ''db'' @ [CHR 0x00]\<rparr>\<rparr>" rt]
    by (simp add: sample_request_def)
qed

section \<open>Properties of outputPaths.ts\<close>

















section \<open>The override of binaryManager.ts\<close>

definition sample_unpack :: "ArchiveType \<Rightarrow> string \<Rightarrow> error + (string \<times> node) list" where
  \<comment> \<open>an extractor that finds one executable in every archive\<close>
  "sample_unpack t c = Inr [(''bin'', Dir [(''mysqldump'', File ''ELF'' 420)])]"








section \<open>The download branch of binaryManager.ts\<close>

text \<open>
  The paths of the branch, on a machine whose home and temporary directories are normal
  absolute paths: the segments of the cache directory, of the private temporary directory
  and of the archive in it.
\<close>

definition binary_name :: "sys \<Rightarrow> string" where
  "binary_name s = (if isWindows s then BINARY_NAMES_win32 else BINARY_NAMES_default)"

definition cache_segments :: "sys \<Rightarrow> string list \<Rightarrow> string list" where
  "cache_segments s hsegs = hsegs @ [''.'' @ APP_NAME, ''bin'', os_platform s @ ''-'' @ os_arch s]"

definition tmp_segments :: "sys \<Rightarrow> string list \<Rightarrow> string list" where
  "tmp_segments s tsegs = tsegs @ [''mysqldump-download-'' @ mkdtemp_suffix s]"

lemma catalog_descriptor:
  assumes "resolveBinaryDescriptor p a = Some d"
  shows "d \<in> set BINARY_MAP" "platform d = p" "arch d = a"
  using assms by (auto simp: resolveBinaryDescriptor_def find_Some_iff)

lemma catalog_hashes:
  "d \<in> set BINARY_MAP \<Longrightarrow> sha256 d \<noteq> [] \<and> sha256 d \<noteq> ''REPLACE_WITH_OFFICIAL_SHA256''"
  by (auto simp: BINARY_MAP_def)

lemma catalog_names:
  "d \<in> set BINARY_MAP
   \<Longrightarrow> clean_segment (platform d @ ''-'' @ arch d) \<and> clean_segment (archive_name d)
       \<and> 13 < length (archive_name d)"
  by (auto simp: BINARY_MAP_def clean_segment_def archive_name_def archiveType_text_def)

lemma binary_name_facts: "clean_segment (binary_name s)" "length (binary_name s) \<le> 13"
  by (simp_all add: binary_name_def BINARY_NAMES_win32_def BINARY_NAMES_default_def clean_segment_def)

lemma cache_paths:
  assumes "os_homedir s = abs_path_of hsegs" "\<forall>seg \<in> set hsegs. clean_segment seg"
    and "clean_segment (os_platform s @ ''-'' @ os_arch s)"
  shows "getBinaryCacheDir s = abs_path_of (cache_segments s hsegs)"
    and "target_path s = abs_path_of (cache_segments s hsegs @ [binary_name s])"
    and "\<forall>seg \<in> set (cache_segments s hsegs). clean_segment seg"
proof -
  have c: "\<forall>seg \<in> set [''.'' @ APP_NAME, ''bin'', os_platform s @ ''-'' @ os_arch s]. clean_segment seg"
    using assms(3) by (simp add: APP_NAME_def clean_segment_def)
  show 1: "getBinaryCacheDir s = abs_path_of (cache_segments s hsegs)"
    unfolding getBinaryCacheDir_def cache_segments_def assms(1)
    using assms(2) c by (rule path_join_abs)
  show 3: "\<forall>seg \<in> set (cache_segments s hsegs). clean_segment seg"
    using assms(2) c by (auto simp: cache_segments_def)
  have "path_join [abs_path_of (cache_segments s hsegs), binary_name s]
        = abs_path_of (cache_segments s hsegs @ [binary_name s])"
    using 3 binary_name_facts(1)[of s] by (intro path_join_abs) simp_all
  then show "target_path s = abs_path_of (cache_segments s hsegs @ [binary_name s])"
    by (simp add: target_path_def 1 binary_name_def)
qed

lemma tmp_paths:
  assumes "os_tmpdir s = abs_path_of tsegs" "\<forall>seg \<in> set tsegs. clean_segment seg"
    and "CHR ''/'' \<notin> set (mkdtemp_suffix s)" "clean_segment nm"
  shows "tmp_dir s = abs_path_of (tmp_segments s tsegs)"
    and "\<forall>seg \<in> set (tmp_segments s tsegs). clean_segment seg"
    and "path_join [tmp_dir s, nm] = abs_path_of (tmp_segments s tsegs @ [nm])"
    and "path_dirname (path_join [tmp_dir s, nm]) = tmp_dir s"
proof -
  have "path_join [abs_path_of tsegs, ''mysqldump-download-''] = abs_path_of (tsegs @ [''mysqldump-download-''])"
    using assms(2) by (intro path_join_abs) (simp_all add: clean_segment_def)
  then show 1: "tmp_dir s = abs_path_of (tmp_segments s tsegs)"
    by (simp add: tmp_dir_def assms(1) tmp_segments_def abs_path_of_snoc_append)
  show 2: "\<forall>seg \<in> set (tmp_segments s tsegs). clean_segment seg"
    using assms(2,3) by (auto simp: tmp_segments_def clean_segment_def)
  show 3: "path_join [tmp_dir s, nm] = abs_path_of (tmp_segments s tsegs @ [nm])"
    unfolding 1 using 2 assms(4) by (intro path_join_abs) simp_all
  show "path_dirname (path_join [tmp_dir s, nm]) = tmp_dir s"
    unfolding 3 unfolding 1 using 2 assms(4) by (rule path_dirname_abs)
qed

lemma downloadToFile_Returns:
  assumes "downloadToFile cwd n fs u dest = (Returns x, fs')"
  obtains fs1 res fs2 where "ensureDir cwd fs (path_dirname dest) = Inr fs1"
    "request n u 0 = Returns res" "openWrite cwd fs1 dest = Inr fs2"
    "fs' = appendFile cwd fs2 dest (body res)"
  using assms
  by (auto simp: downloadToFile_def split: sum.splits if_splits outcome.splits)

lemma download_archive_Returns:
  assumes "download_archive s n d w = (Returns ap, w1)"
  obtains fs1 fs2 where "ensureDir (process_cwd s) (files w) (getBinaryCacheDir s) = Inr fs1"
    "mkdir (process_cwd s) fs1 (tmp_dir s) = Inr fs2"
    "ap = path_join [tmp_dir s, archive_name d]"
    "downloadToFile (process_cwd s) n fs2 (url d) ap = (Returns (), files w1)"
    "effects w1 = effects w @ [Download (url d) ap]"
proof -
  from assms obtain fs1 where 1: "ensureDir (process_cwd s) (files w) (getBinaryCacheDir s) = Inr fs1"
    by (auto simp: download_archive_def split: sum.splits)
  with assms obtain fs2 where 2: "mkdir (process_cwd s) fs1 (tmp_dir s) = Inr fs2"
    by (auto simp: download_archive_def split: sum.splits)
  let ?ap = "path_join [tmp_dir s, archive_name d]"
  let ?r = "downloadToFile (process_cwd s) n fs2 (url d) ?ap"
  let ?w = "\<lparr>files = snd ?r, effects = effects w @ [Download (url d) ?ap]\<rparr>"
  have eq: "download_archive s n d w
            = (case fst ?r of Raises e \<Rightarrow> (Raises e, ?w) | Hangs e \<Rightarrow> (Hangs e, ?w)
               | Returns _ \<Rightarrow> (Returns ?ap, ?w))"
    by (simp add: download_archive_def 1 2 Let_def)
  have 3: "fst ?r = Returns () \<and> ap = ?ap \<and> w1 = ?w"
  proof (cases "fst ?r")
    case (Returns x)
    with eq have "download_archive s n d w = (Returns ?ap, ?w)" by simp
    with assms have "(Returns ap, w1) = (Returns ?ap, ?w)" by (rule trans[OF sym])
    then have c: "ap = ?ap \<and> w1 = ?w" unfolding prod.inject outcome.inject .
    have u: "x = ()" by simp
    from Returns have "fst ?r = Returns ()" unfolding u .
    with c show ?thesis by blast
  next
    case (Raises e)
    with assms eq show ?thesis by simp
  next
    case (Hangs e)
    with assms eq show ?thesis by simp
  qed
  then have a: "ap = ?ap" and b: "w1 = ?w" and c: "fst ?r = Returns ()" by blast+
  have f: "files w1 = snd ?r" by (subst b) simp
  have e: "effects w1 = effects w @ [Download (url d) ap]" unfolding a by (subst b) simp
  have r: "downloadToFile (process_cwd s) n fs2 (url d) ap = (Returns (), files w1)"
    unfolding a f using c by (simp add: prod_eq_iff)
  show ?thesis by (rule that[OF 1 2 a r e])
qed

text \<open>
  What a download that succeeds leaves in the file system: the temporary directory, and
  nothing at a path that was free before, unless the path is in the cache directory's
  chain, or is the temporary directory or the archive.
\<close>

lemma download_archive_frame:
  assumes home: "os_homedir s = abs_path_of hsegs" "\<forall>seg \<in> set hsegs. clean_segment seg"
    and tmp: "os_tmpdir s = abs_path_of tsegs" "\<forall>seg \<in> set tsegs. clean_segment seg"
      "CHR ''/'' \<notin> set (mkdtemp_suffix s)"
    and d: "resolveBinaryDescriptor (os_platform s) (os_arch s) = Some d"
    and dl: "download_archive s n d w = (Returns ap, w1)"
  shows "lookup (files w1) (tmp_segments s tsegs) \<noteq> None"
    and "lookup (files w) q = None \<Longrightarrow> \<not> prefix q (cache_segments s hsegs)
         \<Longrightarrow> q \<noteq> tmp_segments s tsegs \<Longrightarrow> q \<noteq> tmp_segments s tsegs @ [archive_name d]
         \<Longrightarrow> lookup (files w1) q = None"
proof -
  note cat = catalog_descriptor[OF d] catalog_names[OF catalog_descriptor(1)[OF d]]
  have pa: "clean_segment (os_platform s @ ''-'' @ os_arch s)" using cat by simp
  note cp = cache_paths[OF home pa]
  have an: "clean_segment (archive_name d)" using cat by simp
  note tp = tmp_paths[OF tmp an]
  from dl obtain fs1 fs2 where
    1: "ensureDir (process_cwd s) (files w) (getBinaryCacheDir s) = Inr fs1" and
    2: "mkdir (process_cwd s) fs1 (tmp_dir s) = Inr fs2" and
    3: "ap = path_join [tmp_dir s, archive_name d]" and
    4: "downloadToFile (process_cwd s) n fs2 (url d) ap = (Returns (), files w1)"
    by (rule download_archive_Returns)
  from 4 obtain fs3 fs4 and res :: response where
    5: "ensureDir (process_cwd s) fs2 (path_dirname ap) = Inr fs3" and
    6: "openWrite (process_cwd s) fs3 ap = Inr fs4" and
    7: "files w1 = appendFile (process_cwd s) fs4 ap (body res)"
    by (rule downloadToFile_Returns)
  have p1: "fs_path (process_cwd s) (getBinaryCacheDir s) = cache_segments s hsegs"
    unfolding cp(1) using cp(3) by (rule fs_path_abs)
  have p2: "fs_path (process_cwd s) (tmp_dir s) = tmp_segments s tsegs"
    unfolding tp(1) using tp(2) by (rule fs_path_abs)
  have p3: "fs_path (process_cwd s) ap = tmp_segments s tsegs @ [archive_name d]"
    unfolding 3 tp(3) using tp(2) an by (intro fs_path_abs) simp
  have p4: "path_dirname ap = tmp_dir s" unfolding 3 by (rule tp(4))
  have e1: "(lookup fs1 r \<noteq> None) = (lookup (files w) r \<noteq> None \<or> prefix r (cache_segments s hsegs))" for r
    using ensureDir_exists[OF 1, of r] by (simp only: p1)
  have e2: "(lookup fs2 r \<noteq> None) = (lookup fs1 r \<noteq> None \<or> r = tmp_segments s tsegs)" for r
    using mkdir_exists[OF 2, of r] by (simp only: p2)
  have e3: "(lookup fs3 r \<noteq> None) = (lookup fs2 r \<noteq> None \<or> prefix r (tmp_segments s tsegs))" for r
    using ensureDir_exists[OF 5, of r] by (simp only: p4 p2)
  have e4: "(lookup fs4 r \<noteq> None) = (lookup fs3 r \<noteq> None \<or> r = tmp_segments s tsegs @ [archive_name d])" for r
    using openWrite_exists[OF 6, of r] by (simp only: p3)
  have e5: "(lookup (files w1) r \<noteq> None) = (lookup fs4 r \<noteq> None)" for r
    unfolding 7 by (rule appendFile_exists)
  have t2: "lookup fs2 (tmp_segments s tsegs) \<noteq> None" unfolding e2 by blast
  show "lookup (files w1) (tmp_segments s tsegs) \<noteq> None"
    unfolding e5 e4 e3 using t2 by blast
  assume q: "lookup (files w) q = None" "\<not> prefix q (cache_segments s hsegs)"
    "q \<noteq> tmp_segments s tsegs" "q \<noteq> tmp_segments s tsegs @ [archive_name d]"
  have "\<not> (lookup fs2 q \<noteq> None)" unfolding e2 e1 using q by blast
  then have q2: "lookup fs2 q = None" by blast
  have "\<not> prefix q (tmp_segments s tsegs)"
  proof
    assume "prefix q (tmp_segments s tsegs)"
    then obtain r where r: "tmp_segments s tsegs = q @ r" by (auto simp: prefix_def)
    from t2 have "lookup fs2 (q @ r) \<noteq> None" unfolding r .
    then have "lookup fs2 q \<noteq> None" by (rule lookup_prefix_exists)
    with q2 show False by blast
  qed
  with q2 q(4) have "\<not> (lookup (files w1) q \<noteq> None)"
    unfolding e5 e4 e3 by blast
  then show "lookup (files w1) q = None" by blast
qed

lemma target_not_created:
  assumes home: "os_homedir s = abs_path_of hsegs" "\<forall>seg \<in> set hsegs. clean_segment seg"
    and tmp: "os_tmpdir s = abs_path_of tsegs" "\<forall>seg \<in> set tsegs. clean_segment seg"
      "CHR ''/'' \<notin> set (mkdtemp_suffix s)"
    and d: "resolveBinaryDescriptor (os_platform s) (os_arch s) = Some d"
    and dl: "download_archive s n d w = (Returns ap, w1)"
    and nohit: "\<not> pathExists (process_cwd s) (files w) (target_path s)"
  shows "\<not> pathExists (process_cwd s) (files w1) (target_path s)"
    and "pathExists (process_cwd s) (files w1) (tmp_dir s)"
proof -
  note cat = catalog_descriptor[OF d] catalog_names[OF catalog_descriptor(1)[OF d]]
  have pa: "clean_segment (os_platform s @ ''-'' @ os_arch s)" using cat by simp
  note cp = cache_paths[OF home pa]
  have an: "clean_segment (archive_name d)" using cat by simp
  note tp = tmp_paths[OF tmp an]
  let ?t = "cache_segments s hsegs @ [binary_name s]"
  have pt: "fs_path (process_cwd s) (target_path s) = ?t"
    unfolding cp(2) using cp(3) binary_name_facts(1)[of s] by (intro fs_path_abs) simp
  have p2: "fs_path (process_cwd s) (tmp_dir s) = tmp_segments s tsegs"
    unfolding tp(1) using tp(2) by (rule fs_path_abs)
  have a: "lookup (files w) ?t = None" using nohit by (simp add: pathExists_def pt)
  have b: "\<not> prefix ?t (cache_segments s hsegs)" by (simp add: prefix_def)
  have "length (binary_name s) < length (''mysqldump-download-'' @ mkdtemp_suffix s)"
    using binary_name_facts(2)[of s] by simp
  then have "binary_name s \<noteq> ''mysqldump-download-'' @ mkdtemp_suffix s" by auto
  then have c: "?t \<noteq> tmp_segments s tsegs"
    unfolding tmp_segments_def by (metis last_snoc)
  have "binary_name s \<noteq> archive_name d"
    using binary_name_facts(2)[of s] cat by auto
  then have e: "?t \<noteq> tmp_segments s tsegs @ [archive_name d]"
    by (metis last_snoc)
  from download_archive_frame(2)[OF home tmp d dl a b c e]
  show "\<not> pathExists (process_cwd s) (files w1) (target_path s)"
    by (simp add: pathExists_def pt)
  from download_archive_frame(1)[OF home tmp d dl]
  show "pathExists (process_cwd s) (files w1) (tmp_dir s)"
    by (simp add: pathExists_def p2)
qed

lemma ensureBinary_checksum_mismatch:
  assumes "\<not> truthy_str customPath"
    and "resolveBinaryDescriptor (os_platform s) (os_arch s) = Some d"
    and "\<not> pathExists (process_cwd s) (files w) (target_path s)"
    and "download_archive s n d w = (Returns ap, w1)"
    and "sha256File sha256_hex (process_cwd s) (files w1) ap = Inr actual" "actual \<noteq> sha256 d"
  shows "ensureBinary s n sha256_hex unpack w customPath
         = (Raises (Error (''Checksum mismatch for mysqldump archive. Expected '' @ sha256 d
                           @ '', got '' @ actual @ ''.'')),
            w1\<lparr>effects := effects w1 @ [Checksum ap]\<rparr>)"
  using assms catalog_hashes[OF catalog_descriptor(1)[OF assms(2)]]
  by (simp add: ensureBinary_def verify_checksum_def Let_def)

section \<open>A download whose checksum is wrong\<close>

definition archive_net :: net where
  \<comment> \<open>every \<^verbatim>\<open>https:\<close> URL answers 200 with the same body\<close>
  "archive_net =
     \<lparr>https_get = (\<lambda>u. if startsWith u ''https:'' then
                          Reply \<lparr>statusCode = Some 200, location = None, body = ''ARCHIVE''\<rparr>
                        else GetThrows (TypeError ''ERR_INVALID_PROTOCOL'')),
      valid_url = (\<lambda>u. startsWith u ''https:'' \<or> startsWith u ''http:''),
      resolve_url = (\<lambda>loc base. if startsWith loc ''https:'' \<or> startsWith loc ''http:'' then Some loc
                                  else None)\<rparr>"

definition fresh_world :: world where
  \<comment> \<open>a machine with an empty home and an empty temporary directory, nothing fetched so far\<close>
  "fresh_world = \<lparr>files = Dir [(''h'', Dir []), (''t'', Dir [])], effects = []\<rparr>"

definition sample_archive_path :: string where
  "sample_archive_path = ''/t/mysqldump-download-Ab12cd/mysqldump-linux-x64.tarxz''"

definition downloaded_world :: world where
  \<comment> \<open>that machine once the archive for linux-x64 is downloaded\<close>
  "downloaded_world =
     \<lparr>files = Dir [(''h'', Dir [(''.database-cli-dumper'', Dir [(''bin'', Dir [(''linux-x64'', Dir [])])])]),
                   (''t'', Dir [(''mysqldump-download-Ab12cd'',
                                 Dir [(''mysqldump-linux-x64.tarxz'', File ''ARCHIVE'' 420)])])],
      effects = [Download (url (hd BINARY_MAP)) sample_archive_path]\<rparr>"

lemma sample_descriptor: "resolveBinaryDescriptor ''linux'' ''x64'' = Some (hd BINARY_MAP)"
  by (simp add: resolveBinaryDescriptor_def BINARY_MAP_def)

lemma sample_descriptor_fields:
  "archive_name (hd BINARY_MAP) = ''mysqldump-linux-x64.tarxz''"
  "startsWith (url (hd BINARY_MAP)) ''https:''"
  "sha256 (hd BINARY_MAP) = ''ffd80e375834dd07e25cc3c7f03ae1950668ec606655c9cb2eafdfb7e37d6026''"
  by (simp_all add: BINARY_MAP_def archive_name_def archiveType_text_def startsWith_def)

lemma sample_home: "os_homedir sample_sys = abs_path_of [''h'']" "\<forall>seg \<in> set [''h'']. clean_segment seg"
  by (simp_all add: sample_sys_simps abs_path_of_def clean_segment_def)

lemma sample_tmp: "os_tmpdir sample_sys = abs_path_of [''t'']" "\<forall>seg \<in> set [''t'']. clean_segment seg"
  "CHR ''/'' \<notin> set (mkdtemp_suffix sample_sys)"
  by (simp_all add: sample_sys_simps abs_path_of_def clean_segment_def)

lemma sample_cache_paths:
  "getBinaryCacheDir sample_sys = ''/h/.database-cli-dumper/bin/linux-x64''"
  "target_path sample_sys = ''/h/.database-cli-dumper/bin/linux-x64/mysqldump''"
  "fs_path ''/'' ''/h/.database-cli-dumper/bin/linux-x64'' = [''h'', ''.database-cli-dumper'', ''bin'', ''linux-x64'']"
  "fs_path ''/'' ''/h/.database-cli-dumper/bin/linux-x64/mysqldump''
   = [''h'', ''.database-cli-dumper'', ''bin'', ''linux-x64'', ''mysqldump'']"
proof -
  have c: "clean_segment (os_platform sample_sys @ ''-'' @ os_arch sample_sys)"
    by (simp add: sample_sys_simps clean_segment_def)
  show "getBinaryCacheDir sample_sys = ''/h/.database-cli-dumper/bin/linux-x64''"
    using cache_paths(1)[OF sample_home c]
    by (simp add: cache_segments_def abs_path_of_def APP_NAME_def sample_sys_simps)
  show "target_path sample_sys = ''/h/.database-cli-dumper/bin/linux-x64/mysqldump''"
    using cache_paths(2)[OF sample_home c]
    by (simp add: cache_segments_def abs_path_of_def APP_NAME_def sample_sys_simps binary_name_def
        isWindows_def BINARY_NAMES_default_def)
  show "fs_path ''/'' ''/h/.database-cli-dumper/bin/linux-x64'' = [''h'', ''.database-cli-dumper'', ''bin'', ''linux-x64'']"
    using fs_path_abs[of "[''h'', ''.database-cli-dumper'', ''bin'', ''linux-x64'']" "''/''"]
    by (simp add: abs_path_of_def clean_segment_def)
  show "fs_path ''/'' ''/h/.database-cli-dumper/bin/linux-x64/mysqldump''
   = [''h'', ''.database-cli-dumper'', ''bin'', ''linux-x64'', ''mysqldump'']"
    using fs_path_abs[of "[''h'', ''.database-cli-dumper'', ''bin'', ''linux-x64'', ''mysqldump'']" "''/''"]
    by (simp add: abs_path_of_def clean_segment_def)
qed

lemma sample_tmp_paths:
  "tmp_dir sample_sys = ''/t/mysqldump-download-Ab12cd''"
  "path_join [''/t/mysqldump-download-Ab12cd'', ''mysqldump-linux-x64.tarxz''] = sample_archive_path"
  "path_dirname sample_archive_path = ''/t/mysqldump-download-Ab12cd''"
  "fs_path ''/'' ''/t/mysqldump-download-Ab12cd'' = [''t'', ''mysqldump-download-Ab12cd'']"
  "fs_path ''/'' sample_archive_path = [''t'', ''mysqldump-download-Ab12cd'', ''mysqldump-linux-x64.tarxz'']"
proof -
  have c: "clean_segment ''mysqldump-linux-x64.tarxz''" by (simp add: clean_segment_def)
  note tp = tmp_paths[OF sample_tmp c]
  show 1: "tmp_dir sample_sys = ''/t/mysqldump-download-Ab12cd''"
    using tp(1) by (simp add: tmp_segments_def abs_path_of_def sample_sys_simps)
  show 2: "path_join [''/t/mysqldump-download-Ab12cd'', ''mysqldump-linux-x64.tarxz''] = sample_archive_path"
    using tp(3) unfolding 1
    by (simp add: tmp_segments_def abs_path_of_def sample_sys_simps sample_archive_path_def)
  show "path_dirname sample_archive_path = ''/t/mysqldump-download-Ab12cd''"
    using tp(4) unfolding 1 2 .
  show "fs_path ''/'' ''/t/mysqldump-download-Ab12cd'' = [''t'', ''mysqldump-download-Ab12cd'']"
    using fs_path_abs[of "[''t'', ''mysqldump-download-Ab12cd'']" "''/''"]
    by (simp add: abs_path_of_def clean_segment_def)
  show "fs_path ''/'' sample_archive_path = [''t'', ''mysqldump-download-Ab12cd'', ''mysqldump-linux-x64.tarxz'']"
    using fs_path_abs[of "[''t'', ''mysqldump-download-Ab12cd'', ''mysqldump-linux-x64.tarxz'']" "''/''"]
    by (simp add: abs_path_of_def clean_segment_def sample_archive_path_def)
qed

lemma sample_request:
  "request archive_net (url (hd BINARY_MAP)) 0
   = Returns \<lparr>statusCode = Some 200, location = None, body = ''ARCHIVE''\<rparr>"
  by (subst request.simps)
     (simp add: archive_net_def sample_descriptor_fields redirect_location_def truthy_num_def)

lemma sample_download:
  "download_archive sample_sys archive_net (hd BINARY_MAP) fresh_world
   = (Returns sample_archive_path, downloaded_world)"
proof -
  let ?fs1 = "Dir [(''h'', Dir [(''.database-cli-dumper'', Dir [(''bin'', Dir [(''linux-x64'', Dir [])])])]),
                   (''t'', Dir [])]"
  let ?fs2 = "Dir [(''h'', Dir [(''.database-cli-dumper'', Dir [(''bin'', Dir [(''linux-x64'', Dir [])])])]),
                   (''t'', Dir [(''mysqldump-download-Ab12cd'', Dir [])])]"
  have f0: "files fresh_world = Dir [(''h'', Dir []), (''t'', Dir [])]" "effects fresh_world = []"
    by (simp_all add: fresh_world_def)
  have 1: "ensureDir ''/'' (Dir [(''h'', Dir []), (''t'', Dir [])]) ''/h/.database-cli-dumper/bin/linux-x64''
           = Inr ?fs1"
    by (simp add: ensureDir_def sample_cache_paths)
  have 2: "mkdir ''/'' ?fs1 ''/t/mysqldump-download-Ab12cd'' = Inr ?fs2"
    by (simp add: mkdir_def sample_tmp_paths)
  have 3: "ensureDir ''/'' ?fs2 ''/t/mysqldump-download-Ab12cd'' = Inr ?fs2"
    by (simp add: ensureDir_def sample_tmp_paths)
  have v: "valid_url archive_net (url (hd BINARY_MAP))"
    using sample_descriptor_fields(2) by (simp add: archive_net_def)
  have 4: "downloadToFile ''/'' archive_net ?fs2 (url (hd BINARY_MAP)) sample_archive_path
           = (Returns (), files downloaded_world)"
    by (simp add: downloadToFile_def sample_tmp_paths 3 v sample_request openWrite_def
        appendFile_def downloaded_world_def)
  show ?thesis
    by (simp add: download_archive_def sample_sys_simps sample_cache_paths sample_tmp_paths f0 1 2
        sample_descriptor_fields(1) 4 Let_def downloaded_world_def)
qed

lemma sample_checksum:
  "sha256File (\<lambda>c. ''00'') (process_cwd sample_sys) (files downloaded_world) sample_archive_path = Inr ''00''"
  by (simp add: sha256File_def readFile_def sample_sys_simps sample_tmp_paths downloaded_world_def)

lemma sample_no_hit: "\<not> pathExists (process_cwd sample_sys) (files fresh_world) (target_path sample_sys)"
  by (simp add: pathExists_def sample_sys_simps sample_cache_paths fresh_world_def)

text \<open>
  Claim C2.  On a machine whose home and temporary directories are normal absolute paths,
  for every platform and architecture that has a descriptor in the catalog, with no
  override and nothing at the cache path: when the archive is downloaded and its SHA-256
  is not the hash of the descriptor, \<^verbatim>\<open>ensureBinary\<close> fails with the error "Checksum mismatch
  for mysqldump archive", the calls made are the download and the checksum and no
  extraction, and nothing exists at the cache path afterwards.
\<close>

theorem checksum_mismatch_aborts:
  "os_homedir s = abs_path_of hsegs \<and> (\<forall>seg \<in> set hsegs. clean_segment seg)
   \<and> os_tmpdir s = abs_path_of tsegs \<and> (\<forall>seg \<in> set tsegs. clean_segment seg)
   \<and> CHR ''/'' \<notin> set (mkdtemp_suffix s)
   \<and> resolveBinaryDescriptor (os_platform s) (os_arch s) = Some d
   \<and> \<not> truthy_str customPath
   \<and> \<not> pathExists (process_cwd s) (files w) (target_path s)
   \<and> download_archive s n d w = (Returns ap, w1)
   \<and> sha256File sha256_hex (process_cwd s) (files w1) ap = Inr actual \<and> actual \<noteq> sha256 d
   \<longrightarrow>
     fst (ensureBinary s n sha256_hex unpack w customPath)
     = Raises (Error (''Checksum mismatch for mysqldump archive. Expected '' @ sha256 d
                      @ '', got '' @ actual @ ''.''))
     \<and> effects (snd (ensureBinary s n sha256_hex unpack w customPath))
       = effects w @ [Download (url d) ap, Checksum ap]
     \<and> \<not> pathExists (process_cwd s) (files (snd (ensureBinary s n sha256_hex unpack w customPath)))
           (target_path s)"
proof (intro impI)
  assume a: "os_homedir s = abs_path_of hsegs \<and> (\<forall>seg \<in> set hsegs. clean_segment seg)
   \<and> os_tmpdir s = abs_path_of tsegs \<and> (\<forall>seg \<in> set tsegs. clean_segment seg)
   \<and> CHR ''/'' \<notin> set (mkdtemp_suffix s)
   \<and> resolveBinaryDescriptor (os_platform s) (os_arch s) = Some d
   \<and> \<not> truthy_str customPath
   \<and> \<not> pathExists (process_cwd s) (files w) (target_path s)
   \<and> download_archive s n d w = (Returns ap, w1)
   \<and> sha256File sha256_hex (process_cwd s) (files w1) ap = Inr actual \<and> actual \<noteq> sha256 d"
  then have home: "os_homedir s = abs_path_of hsegs" "\<forall>seg \<in> set hsegs. clean_segment seg"
    and tmp: "os_tmpdir s = abs_path_of tsegs" "\<forall>seg \<in> set tsegs. clean_segment seg"
      "CHR ''/'' \<notin> set (mkdtemp_suffix s)"
    and d: "resolveBinaryDescriptor (os_platform s) (os_arch s) = Some d"
    and c: "\<not> truthy_str customPath"
    and nohit: "\<not> pathExists (process_cwd s) (files w) (target_path s)"
    and dl: "download_archive s n d w = (Returns ap, w1)"
    and sha: "sha256File sha256_hex (process_cwd s) (files w1) ap = Inr actual" "actual \<noteq> sha256 d"
    by blast+
  have r: "ensureBinary s n sha256_hex unpack w customPath
         = (Raises (Error (''Checksum mismatch for mysqldump archive. Expected '' @ sha256 d
                           @ '', got '' @ actual @ ''.'')),
            w1\<lparr>effects := effects w1 @ [Checksum ap]\<rparr>)"
    using c d nohit dl sha by (rule ensureBinary_checksum_mismatch)
  have e: "effects w1 = effects w @ [Download (url d) ap]"
    using dl by (rule download_archive_Returns)
  have t: "\<not> pathExists (process_cwd s) (files w1) (target_path s)"
    using home tmp d dl nohit by (rule target_not_created(1))
  show "fst (ensureBinary s n sha256_hex unpack w customPath)
     = Raises (Error (''Checksum mismatch for mysqldump archive. Expected '' @ sha256 d
                      @ '', got '' @ actual @ ''.''))
     \<and> effects (snd (ensureBinary s n sha256_hex unpack w customPath))
       = effects w @ [Download (url d) ap, Checksum ap]
     \<and> \<not> pathExists (process_cwd s) (files (snd (ensureBinary s n sha256_hex unpack w customPath)))
           (target_path s)"
    unfolding r using e t by simp
qed

theorem checksum_mismatch_aborts_witness:
  "fst (ensureBinary sample_sys archive_net (\<lambda>c. ''00'') sample_unpack fresh_world None)
   = Raises (Error (''Checksum mismatch for mysqldump archive. Expected ''
                    @ ''ffd80e375834dd07e25cc3c7f03ae1950668ec606655c9cb2eafdfb7e37d6026''
                    @ '', got 00.''))
   \<and> effects (snd (ensureBinary sample_sys archive_net (\<lambda>c. ''00'') sample_unpack fresh_world None))
     = [Download (url (hd BINARY_MAP)) sample_archive_path, Checksum sample_archive_path]
   \<and> lookup (files (snd (ensureBinary sample_sys archive_net (\<lambda>c. ''00'') sample_unpack fresh_world None)))
        [''h'', ''.database-cli-dumper'', ''bin'', ''linux-x64'', ''mysqldump''] = None"
  using checksum_mismatch_aborts[of sample_sys "[''h'']" "[''t'']" "hd BINARY_MAP" None fresh_world
      archive_net sample_archive_path downloaded_world "\<lambda>c. ''00''" "''00''" sample_unpack]
    sample_home sample_tmp sample_descriptor sample_no_hit sample_download sample_checksum
  by (simp add: sample_sys_simps truthy_str_def sample_descriptor_fields fresh_world_def
      pathExists_def sample_cache_paths)

text \<open>
  Claim C8, where the code breaks it.  \<^verbatim>\<open>ensureBinary\<close> removes the temporary directory in
  its last line only, with no \<^verbatim>\<open>try\<close> and \<^verbatim>\<open>finally\<close> around the download and the
  extraction.  When the checksum of the downloaded archive is wrong, \<^verbatim>\<open>ensureBinary\<close> fails
  and the temporary directory it created is still there, with the archive in it.
\<close>

theorem temp_dir_left_behind:
  "os_homedir s = abs_path_of hsegs \<and> (\<forall>seg \<in> set hsegs. clean_segment seg)
   \<and> os_tmpdir s = abs_path_of tsegs \<and> (\<forall>seg \<in> set tsegs. clean_segment seg)
   \<and> CHR ''/'' \<notin> set (mkdtemp_suffix s)
   \<and> resolveBinaryDescriptor (os_platform s) (os_arch s) = Some d
   \<and> \<not> truthy_str customPath
   \<and> \<not> pathExists (process_cwd s) (files w) (target_path s)
   \<and> download_archive s n d w = (Returns ap, w1)
   \<and> sha256File sha256_hex (process_cwd s) (files w1) ap = Inr actual \<and> actual \<noteq> sha256 d
   \<longrightarrow>
     fst (ensureBinary s n sha256_hex unpack w customPath)
     = Raises (Error (''Checksum mismatch for mysqldump archive. Expected '' @ sha256 d
                      @ '', got '' @ actual @ ''.''))
     \<and> pathExists (process_cwd s) (files (snd (ensureBinary s n sha256_hex unpack w customPath)))
         (tmp_dir s)
     \<and> pathExists (process_cwd s) (files (snd (ensureBinary s n sha256_hex unpack w customPath))) ap"
proof (intro impI)
  assume a: "os_homedir s = abs_path_of hsegs \<and> (\<forall>seg \<in> set hsegs. clean_segment seg)
   \<and> os_tmpdir s = abs_path_of tsegs \<and> (\<forall>seg \<in> set tsegs. clean_segment seg)
   \<and> CHR ''/'' \<notin> set (mkdtemp_suffix s)
   \<and> resolveBinaryDescriptor (os_platform s) (os_arch s) = Some d
   \<and> \<not> truthy_str customPath
   \<and> \<not> pathExists (process_cwd s) (files w) (target_path s)
   \<and> download_archive s n d w = (Returns ap, w1)
   \<and> sha256File sha256_hex (process_cwd s) (files w1) ap = Inr actual \<and> actual \<noteq> sha256 d"
  then have home: "os_homedir s = abs_path_of hsegs" "\<forall>seg \<in> set hsegs. clean_segment seg"
    and tmp: "os_tmpdir s = abs_path_of tsegs" "\<forall>seg \<in> set tsegs. clean_segment seg"
      "CHR ''/'' \<notin> set (mkdtemp_suffix s)"
    and d: "resolveBinaryDescriptor (os_platform s) (os_arch s) = Some d"
    and c: "\<not> truthy_str customPath"
    and nohit: "\<not> pathExists (process_cwd s) (files w) (target_path s)"
    and dl: "download_archive s n d w = (Returns ap, w1)"
    and sha: "sha256File sha256_hex (process_cwd s) (files w1) ap = Inr actual" "actual \<noteq> sha256 d"
    by blast+
  have r: "ensureBinary s n sha256_hex unpack w customPath
         = (Raises (Error (''Checksum mismatch for mysqldump archive. Expected '' @ sha256 d
                           @ '', got '' @ actual @ ''.'')),
            w1\<lparr>effects := effects w1 @ [Checksum ap]\<rparr>)"
    using c d nohit dl sha by (rule ensureBinary_checksum_mismatch)
  have t: "pathExists (process_cwd s) (files w1) (tmp_dir s)"
    using home tmp d dl nohit by (rule target_not_created(2))
  have f: "pathExists (process_cwd s) (files w1) ap"
    using sha(1) by (auto simp: sha256File_def split: sum.splits dest: readFile_exists)
  show "fst (ensureBinary s n sha256_hex unpack w customPath)
     = Raises (Error (''Checksum mismatch for mysqldump archive. Expected '' @ sha256 d
                      @ '', got '' @ actual @ ''.''))
     \<and> pathExists (process_cwd s) (files (snd (ensureBinary s n sha256_hex unpack w customPath)))
         (tmp_dir s)
     \<and> pathExists (process_cwd s) (files (snd (ensureBinary s n sha256_hex unpack w customPath))) ap"
    unfolding r using t f by simp
qed

theorem temp_dir_left_behind_witness:
  "fst (ensureBinary sample_sys archive_net (\<lambda>c. ''00'') sample_unpack fresh_world None)
   = Raises (Error (''Checksum mismatch for mysqldump archive. Expected ''
                    @ ''ffd80e375834dd07e25cc3c7f03ae1950668ec606655c9cb2eafdfb7e37d6026''
                    @ '', got 00.''))
   \<and> pathExists ''/'' (files (snd (ensureBinary sample_sys archive_net (\<lambda>c. ''00'') sample_unpack fresh_world None)))
       ''/t/mysqldump-download-Ab12cd''
   \<and> pathExists ''/'' (files (snd (ensureBinary sample_sys archive_net (\<lambda>c. ''00'') sample_unpack fresh_world None)))
       sample_archive_path"
  using temp_dir_left_behind[of sample_sys "[''h'']" "[''t'']" "hd BINARY_MAP" None fresh_world
      archive_net sample_archive_path downloaded_world "\<lambda>c. ''00''" "''00''" sample_unpack]
    sample_home sample_tmp sample_descriptor sample_no_hit sample_download sample_checksum
  by (simp add: sample_sys_simps truthy_str_def sample_descriptor_fields sample_tmp_paths)

section \<open>Properties of dumpRunner.ts\<close>

























end
